theory Spec2Isabelle
  imports Main "HOL-Library.Word"
begin

section \<open>Data: Python strings, bytes, and the UTF-8 codec\<close>

text \<open>
  A Python \<open>str\<close> is a sequence of Unicode code points, a \<open>bytes\<close> object a sequence of
  octets. \<open>str\<close> turns an ASCII literal of the source into its code points.
\<close>

type_synonym unicode = "nat list"
type_synonym bytes = "8 word list"

definition str :: "string \<Rightarrow> unicode" where
  "str s = map of_char s"

definition dquote :: nat where
  "dquote = 34"

definition slash :: nat where
  "slash = 47"

text \<open>
  \<open>bytes.decode("utf-8")\<close> with the default strict error handler: only well-formed UTF-8
  is accepted (no overlong forms, no surrogates, nothing above U+10FFFF); any other input
  raises \<open>UnicodeDecodeError\<close>, which is the value \<open>None\<close> here.
\<close>

definition cont :: "nat \<Rightarrow> bool" where
  "cont b = (0x80 \<le> b \<and> b \<le> 0xBF)"

definition second3 :: "nat \<Rightarrow> nat \<Rightarrow> bool" where
  "second3 b0 b1 =
     (if b0 = 0xE0 then 0xA0 \<le> b1 \<and> b1 \<le> 0xBF
      else if b0 = 0xED then 0x80 \<le> b1 \<and> b1 \<le> 0x9F
      else cont b1)"

definition second4 :: "nat \<Rightarrow> nat \<Rightarrow> bool" where
  "second4 b0 b1 =
     (if b0 = 0xF0 then 0x90 \<le> b1 \<and> b1 \<le> 0xBF
      else if b0 = 0xF4 then 0x80 \<le> b1 \<and> b1 \<le> 0x8F
      else cont b1)"

fun decode_octets :: "nat list \<Rightarrow> unicode option" where
  "decode_octets [] = Some []"
| "decode_octets (b0 # bs) =
     (if b0 < 0x80 then map_option (Cons b0) (decode_octets bs)
      else if 0xC2 \<le> b0 \<and> b0 \<le> 0xDF then
        (case bs of
           b1 # r \<Rightarrow>
             if cont b1
             then map_option (Cons ((b0 - 0xC0) * 0x40 + (b1 - 0x80))) (decode_octets r)
             else None
         | _ \<Rightarrow> None)
      else if 0xE0 \<le> b0 \<and> b0 \<le> 0xEF then
        (case bs of
           b1 # b2 # r \<Rightarrow>
             if second3 b0 b1 \<and> cont b2
             then map_option
                    (Cons ((b0 - 0xE0) * 0x1000 + (b1 - 0x80) * 0x40 + (b2 - 0x80)))
                    (decode_octets r)
             else None
         | _ \<Rightarrow> None)
      else if 0xF0 \<le> b0 \<and> b0 \<le> 0xF4 then
        (case bs of
           b1 # b2 # b3 # r \<Rightarrow>
             if second4 b0 b1 \<and> cont b2 \<and> cont b3
             then map_option
                    (Cons ((b0 - 0xF0) * 0x40000 + (b1 - 0x80) * 0x1000
                           + (b2 - 0x80) * 0x40 + (b3 - 0x80)))
                    (decode_octets r)
             else None
         | _ \<Rightarrow> None)
      else None)"

definition utf8_decode :: "bytes \<Rightarrow> unicode option" where
  "utf8_decode bs = decode_octets (map unat bs)"

text \<open>
  \<open>str.encode("utf-8")\<close>: a surrogate code point raises \<open>UnicodeEncodeError\<close> (\<open>None\<close>).
  A Python string holds no code point above U+10FFFF; the model answers \<open>None\<close> there.
\<close>

definition encode_code_point :: "nat \<Rightarrow> nat list option" where
  "encode_code_point c =
     (if c < 0x80 then Some [c]
      else if c < 0x800 then Some [0xC0 + c div 0x40, 0x80 + c mod 0x40]
      else if c < 0x10000 then
        (if 0xD800 \<le> c \<and> c \<le> 0xDFFF then None
         else Some [0xE0 + c div 0x1000, 0x80 + (c div 0x40) mod 0x40, 0x80 + c mod 0x40])
      else if c < 0x110000 then
        Some [0xF0 + c div 0x40000, 0x80 + (c div 0x1000) mod 0x40,
              0x80 + (c div 0x40) mod 0x40, 0x80 + c mod 0x40]
      else None)"

fun encode_octets :: "unicode \<Rightarrow> nat list option" where
  "encode_octets [] = Some []"
| "encode_octets (c # cs) =
     (case encode_code_point c of
        None \<Rightarrow> None
      | Some bs \<Rightarrow> map_option ((@) bs) (encode_octets cs))"

definition utf8_encode :: "unicode \<Rightarrow> bytes option" where
  "utf8_encode t = map_option (map of_nat) (encode_octets t)"

text \<open>\<open>str(n)\<close> for a non-negative integer: its decimal digits.\<close>

function str_nat :: "nat \<Rightarrow> unicode" where
  "str_nat n = (if n < 10 then [48 + n] else str_nat (n div 10) @ [48 + n mod 10])"
  by pat_completeness auto
termination
  by (relation "measure (\<lambda>n. n)") auto

declare str_nat.simps [simp del]

section \<open>Library functions on paths and strings\<close>

text \<open>\<open>s.endswith(suffix)\<close>.\<close>

definition endswith :: "unicode \<Rightarrow> unicode \<Rightarrow> bool" where
  "endswith s suffix = (take (length suffix) (rev s) = rev suffix)"

text \<open>
  \<open>os.path.join(a, b)\<close> of \<open>posixpath\<close> with two arguments: an absolute \<open>b\<close> (or an empty
  \<open>a\<close>) discards \<open>a\<close>; otherwise \<open>b\<close> is appended, after a separator unless \<open>a\<close> ends in one.
\<close>

definition path_join :: "unicode \<Rightarrow> unicode \<Rightarrow> unicode" where
  "path_join a b =
     (if take 1 b = [slash] \<or> a = [] then b
      else if last a = slash then a @ b
      else a @ [slash] @ b)"

text \<open>
  \<open>os.path.dirname(p)\<close> of \<open>posixpath\<close>: the part up to and including the last separator,
  with trailing separators removed unless it consists of separators only.
\<close>

definition dirname :: "unicode \<Rightarrow> unicode" where
  "dirname p =
     (let head = rev (dropWhile (\<lambda>c. c \<noteq> slash) (rev p))
      in if head \<noteq> [] \<and> \<not> list_all (\<lambda>c. c = slash) head
         then rev (dropWhile (\<lambda>c. c = slash) (rev head))
         else head)"

section \<open>The environment of a request\<close>

text \<open>
  What the operating system and the inherited \<open>SimpleHTTPRequestHandler\<close> answer while one
  request is served. The source only reads the file system, so its state is a value that
  the handler consults:
  \<^item> \<open>stat\<close>: the kind of the file a path names (\<open>None\<close> when \<open>os.stat\<close> fails);
    \<open>os.path.exists\<close>, \<open>isdir\<close> and \<open>isfile\<close> are derived from it as in \<open>genericpath\<close>;
  \<^item> \<open>open_rb\<close>: \<open>open(path, 'rb')\<close> followed by \<open>read()\<close>; \<open>None\<close> is \<open>OSError\<close>;
  \<^item> \<open>read_text\<close>: \<open>open(path, "r", encoding="utf-8")\<close> followed by \<open>read()\<close>; \<open>Inl m\<close> is an
    exception \<open>e\<close> with \<open>str(e) = m\<close>;
  \<^item> \<open>getcwd\<close>, \<open>unquote\<close> (\<open>urllib.parse.unquote\<close>), and the inherited methods
    \<open>translate_path\<close> and \<open>guess_type\<close>.
\<close>

datatype kind = Dir | Reg | Other

record environment =
  translate_path :: "unicode \<Rightarrow> unicode"
  guess_type :: "unicode \<Rightarrow> unicode"
  unquote :: "unicode \<Rightarrow> unicode"
  getcwd :: unicode
  stat :: "unicode \<Rightarrow> kind option"
  open_rb :: "unicode \<Rightarrow> bytes option"
  read_text :: "unicode \<Rightarrow> unicode + unicode"

definition exists :: "environment \<Rightarrow> unicode \<Rightarrow> bool" where
  "exists e p = (stat e p \<noteq> None)"

definition isdir :: "environment \<Rightarrow> unicode \<Rightarrow> bool" where
  "isdir e p = (stat e p = Some Dir)"

definition isfile :: "environment \<Rightarrow> unicode \<Rightarrow> bool" where
  "isfile e p = (stat e p = Some Reg)"

section \<open>The include expander\<close>

text \<open>
  \<open>\s\<close> in a \<open>str\<close> pattern: the code points for which \<open>str.isspace\<close> holds.
\<close>

definition is_space :: "nat \<Rightarrow> bool" where
  "is_space c =
     ((9 \<le> c \<and> c \<le> 13) \<or> (28 \<le> c \<and> c \<le> 32) \<or> c = 0x85 \<or> c = 0xA0 \<or> c = 0x1680
      \<or> (0x2000 \<le> c \<and> c \<le> 0x200A) \<or> c = 0x2028 \<or> c = 0x2029 \<or> c = 0x202F
      \<or> c = 0x205F \<or> c = 0x3000)"

definition not_dquote :: "nat \<Rightarrow> bool" where
  "not_dquote c = (c \<noteq> dquote)"

text \<open>A literal piece of the pattern: the input must start with it.\<close>

definition lit :: "unicode \<Rightarrow> unicode \<Rightarrow> unicode option" where
  "lit p s = (if take (length p) s = p then Some (drop (length p) s) else None)"

text \<open>
  The pattern \<^verbatim>\<open><!--\s*#include\s+virtual="([^"]+)"\s*-->\<close> tried at the start of \<open>s\<close>:
  group 1 and the input after the match. Each repetition is followed by a literal whose
  first character the repeated class excludes, so the greedy repetition takes the whole
  run and no shorter choice can succeed: the backtracking matcher of \<open>re\<close> finds this
  match or none.
\<close>

definition match_directive :: "unicode \<Rightarrow> (unicode \<times> unicode) option" where
  "match_directive s =
     Option.bind (lit (str ''<!--'') s) (\<lambda>s1.
     Option.bind (lit (str ''#include'') (dropWhile is_space s1)) (\<lambda>s2.
     if takeWhile is_space s2 = [] then None else
     Option.bind (lit (str ''virtual='' @ [dquote]) (dropWhile is_space s2)) (\<lambda>s3.
     if takeWhile not_dquote s3 = [] then None else
     Option.bind (lit [dquote] (dropWhile not_dquote s3)) (\<lambda>s4.
     Option.bind (lit (str ''-->'') (dropWhile is_space s4)) (\<lambda>s5.
     Some (takeWhile not_dquote s3, s5))))))"

text \<open>
  \<open>pattern.sub(repl, content)\<close> with a function \<open>repl\<close>: the leftmost match is replaced by
  \<open>repl\<close> of its group 1, the scan goes on behind the match, and a character at which no
  match starts is copied.
\<close>

function re_sub :: "(unicode \<Rightarrow> unicode) \<Rightarrow> unicode \<Rightarrow> unicode" where
  "re_sub repl [] = []"
| "re_sub repl (c # cs) =
     (case match_directive (c # cs) of
        Some (v, rest) \<Rightarrow> repl v @ re_sub repl rest
      | None \<Rightarrow> c # re_sub repl cs)"
  by pat_completeness auto
termination
proof (relation "measure (\<lambda>(repl, s). length s)")
  show "wf (measure (\<lambda>(repl, s). length s))"
    by simp
next
  fix repl :: "unicode \<Rightarrow> unicode" and c :: nat and cs :: unicode
  show "((repl, cs), (repl, c # cs)) \<in> measure (\<lambda>(repl, s). length s)"
    by simp
next
  fix repl :: "unicode \<Rightarrow> unicode" and c :: nat and cs x2 x y :: unicode and p
  assume m: "match_directive (c # cs) = Some p" and p: "(x, y) = p"
  have l: "\<And>q s r. lit q s = Some r \<Longrightarrow> length r \<le> length s"
    by (auto simp: lit_def split: if_splits)
  have d: "\<And>P s. length (dropWhile P s) \<le> length (s :: unicode)"
    by (rule length_dropWhile_le)
  from m p obtain s1 s2 s3 s4 where
    1: "lit (str ''<!--'') (c # cs) = Some s1" and
    2: "lit (str ''#include'') (dropWhile is_space s1) = Some s2" and
    3: "lit (str ''virtual='' @ [dquote]) (dropWhile is_space s2) = Some s3" and
    4: "lit [dquote] (dropWhile not_dquote s3) = Some s4" and
    5: "lit (str ''-->'') (dropWhile is_space s4) = Some y"
    by (auto simp: match_directive_def split: bind_splits if_splits)
  from 1 have "length s1 < length (c # cs)"
    by (auto simp: lit_def str_def split: if_splits)
  moreover from l [OF 2] d [of is_space s1] have "length s2 \<le> length s1" by linarith
  moreover from l [OF 3] d [of is_space s2] have "length s3 \<le> length s2" by linarith
  moreover from l [OF 4] d [of not_dquote s3] have "length s4 \<le> length s3" by linarith
  moreover from l [OF 5] d [of is_space s4] have "length y \<le> length s4" by linarith
  ultimately show "((repl, y), (repl, c # cs)) \<in> measure (\<lambda>(repl, s). length s)"
    by simp
qed

text \<open>
  \<open>replace_include\<close>, the closure inside \<open>handle_includes\<close>; \<open>base_dir\<close> is the variable it
  captures and \<open>group1\<close> is \<open>match.group(1)\<close>.
\<close>

definition replace_include :: "environment \<Rightarrow> unicode \<Rightarrow> unicode \<Rightarrow> unicode" where
  "replace_include e base_dir group1 =
     (let include_path = path_join base_dir (unquote e group1)
      in if exists e include_path \<and> isfile e include_path then
           (case read_text e include_path of
              Inr content \<Rightarrow> content
            | Inl msg \<Rightarrow>
                str ''<!-- Error including '' @ include_path @ str '': '' @ msg @ str '' -->'')
         else str ''<!-- File not found: '' @ include_path @ str '' -->'')"

definition handle_includes :: "environment \<Rightarrow> unicode \<Rightarrow> unicode \<Rightarrow> unicode" where
  "handle_includes e content base_dir = re_sub (replace_include e base_dir) content"

section \<open>The request handler\<close>

text \<open>
  The handler object: \<open>self.path\<close>, and the calls \<open>send_head\<close> has made on the inherited
  response methods, in order. These methods are not part of the source; the model records
  that they were called and with which arguments.
\<close>

datatype call =
    SendResponse nat
  | SendHeader unicode unicode
  | EndHeaders
  | SendError nat unicode

record handler =
  self_path :: unicode
  sent :: "call list"

definition send_response :: "nat \<Rightarrow> handler \<Rightarrow> handler" where
  "send_response code h = h\<lparr>sent := sent h @ [SendResponse code]\<rparr>"

definition send_header :: "unicode \<Rightarrow> unicode \<Rightarrow> handler \<Rightarrow> handler" where
  "send_header keyword val h = h\<lparr>sent := sent h @ [SendHeader keyword val]\<rparr>"

definition end_headers :: "handler \<Rightarrow> handler" where
  "end_headers h = h\<lparr>sent := sent h @ [EndHeaders]\<rparr>"

definition send_error :: "nat \<Rightarrow> unicode \<Rightarrow> handler \<Rightarrow> handler" where
  "send_error code message h = h\<lparr>sent := sent h @ [SendError code message]\<rparr>"

text \<open>
  What \<open>send_head\<close> hands back: a file object that yields the given bytes (the opened file,
  or \<open>BytesIO(encoded)\<close>), \<open>None\<close>, whatever \<open>super().send_head()\<close> returns, or an exception
  that leaves \<open>send_head\<close> uncaught.
\<close>

datatype exn = UnicodeDecodeError | UnicodeEncodeError

datatype ret =
    ReturnFile bytes
  | ReturnNone
  | SuperSendHead
  | Raise exn

text \<open>
  Lines 20 to 26, the \<open>for\<close> loop with its \<open>else\<close>: the first index name whose path exists,
  \<open>None\<close> when the loop runs to its end.
\<close>

fun first_index :: "environment \<Rightarrow> unicode \<Rightarrow> unicode list \<Rightarrow> unicode option" where
  "first_index e path [] = None"
| "first_index e path (index # indexes) =
     (let index_path = path_join path index
      in if exists e index_path then Some index_path else first_index e path indexes)"

text \<open>
  Lines 15 to 38 of \<open>send_head\<close>: the file to serve (\<open>Found\<close>), the 404 of line 35
  (\<open>NotFound\<close>), or the two \<open>return super().send_head()\<close> (\<open>Default\<close>).
\<close>

datatype resolution = Found unicode | NotFound | Default

definition resolve :: "environment \<Rightarrow> unicode \<Rightarrow> resolution" where
  "resolve e request_path =
     (let path = translate_path e request_path
      in case (if isdir e path
               then first_index e path [str ''index.html'', str ''index.htm'']
               else Some path) of
           None \<Rightarrow> Default
         | Some path \<Rightarrow>
             if \<not> exists e path then
               if endswith request_path (str ''.html'') then
                 (let spa_fallback = path_join (getcwd e) (str ''index.html'')
                  in if exists e spa_fallback then Found spa_fallback else NotFound)
               else Default
             else Found path)"

text \<open>Lines 40 to 65 of \<open>send_head\<close>, for the resolved \<open>path\<close>.\<close>

definition ok_headers :: "unicode \<Rightarrow> nat \<Rightarrow> handler \<Rightarrow> handler" where
  "ok_headers ctype n h =
     end_headers
       (send_header (str ''Content-Length'') (str_nat n)
          (send_header (str ''Content-type'') ctype
             (send_response 200 h)))"

definition serve :: "environment \<Rightarrow> unicode \<Rightarrow> handler \<Rightarrow> ret \<times> handler" where
  "serve e path h =
     (let ctype = guess_type e path
      in case open_rb e path of
           None \<Rightarrow> (ReturnNone, send_error 404 (str ''File not found'') h)
         | Some f \<Rightarrow>
             if ctype = str ''text/html'' then
               (case utf8_decode f of
                  None \<Rightarrow> (Raise UnicodeDecodeError, h)
                | Some content \<Rightarrow>
                    (case utf8_encode (handle_includes e content (dirname path)) of
                       None \<Rightarrow> (Raise UnicodeEncodeError, h)
                     | Some encoded \<Rightarrow>
                         (ReturnFile encoded, ok_headers ctype (length encoded) h)))
             else (ReturnFile f, ok_headers ctype (length f) h))"

definition send_head :: "environment \<Rightarrow> handler \<Rightarrow> ret \<times> handler" where
  "send_head e h =
     (case resolve e (self_path h) of
        Default \<Rightarrow> (SuperSendHead, h)
      | NotFound \<Rightarrow> (ReturnNone, send_error 404 (str ''File not found'') h)
      | Found path \<Rightarrow> serve e path h)"

section \<open>The directive syntax and the expansion it specifies\<close>

text \<open>
  The text of a directive, from its parts: the whitespace after \<^verbatim>\<open><!--\<close>, the whitespace
  after \<^verbatim>\<open>#include\<close>, the value between the quotes, the whitespace before \<^verbatim>\<open>-->\<close>.
\<close>

definition directive_text :: "unicode \<Rightarrow> unicode \<Rightarrow> unicode \<Rightarrow> unicode \<Rightarrow> unicode" where
  "directive_text ws1 ws2 v ws3 =
     str ''<!--'' @ ws1 @ str ''#include'' @ ws2 @ str ''virtual='' @ [dquote] @ v
       @ [dquote] @ ws3 @ str ''-->''"

text \<open>The parts the pattern of line 71 admits.\<close>

definition pattern_parts :: "unicode \<Rightarrow> unicode \<Rightarrow> unicode \<Rightarrow> unicode \<Rightarrow> bool" where
  "pattern_parts ws1 ws2 v ws3 =
     (list_all is_space ws1 \<and> list_all is_space ws2 \<and> ws2 \<noteq> [] \<and>
      list_all not_dquote v \<and> v \<noteq> [] \<and> list_all is_space ws3)"

text \<open>
  The parts the specification's wording admits: whitespace is optional on both sides of
  \<^verbatim>\<open>#include\<close>, and the value is any sequence without a double quote.
\<close>

definition spec_parts :: "unicode \<Rightarrow> unicode \<Rightarrow> unicode \<Rightarrow> unicode \<Rightarrow> bool" where
  "spec_parts ws1 ws2 v ws3 =
     (list_all is_space ws1 \<and> list_all is_space ws2 \<and> list_all not_dquote v \<and>
      list_all is_space ws3)"

text \<open>A value that begins, after optional whitespace, with \<^verbatim>\<open>-->\<close>.\<close>

definition closes_early :: "unicode \<Rightarrow> bool" where
  "closes_early v = (lit (str ''-->'') (dropWhile is_space v) \<noteq> None)"

text \<open>A directive starts the text \<open>s\<close>.\<close>

definition directive_at :: "unicode \<Rightarrow> bool" where
  "directive_at s =
     (\<exists>ws1 ws2 v ws3 rest. pattern_parts ws1 ws2 v ws3 \<and> s = directive_text ws1 ws2 v ws3 @ rest)"

text \<open>
  The single pass of section 4.2 of the specification, as a relation between a document
  and its expansion: a directive at the current position is replaced by what the
  referenced file yields, and the pass goes on behind the directive in the document;
  any other character is copied.
\<close>

inductive single_pass :: "environment \<Rightarrow> unicode \<Rightarrow> unicode \<Rightarrow> unicode \<Rightarrow> bool"
  for e :: environment and base_dir :: unicode where
  Done: "single_pass e base_dir [] []"
| Copy: "\<not> directive_at (c # cs) \<Longrightarrow> single_pass e base_dir cs out
         \<Longrightarrow> single_pass e base_dir (c # cs) (c # out)"
| Included: "pattern_parts ws1 ws2 v ws3
         \<Longrightarrow> isfile e (path_join base_dir (unquote e v))
         \<Longrightarrow> read_text e (path_join base_dir (unquote e v)) = Inr content
         \<Longrightarrow> single_pass e base_dir rest out
         \<Longrightarrow> single_pass e base_dir (directive_text ws1 ws2 v ws3 @ rest) (content @ out)"
| Missing: "pattern_parts ws1 ws2 v ws3
         \<Longrightarrow> \<not> isfile e (path_join base_dir (unquote e v))
         \<Longrightarrow> single_pass e base_dir rest out
         \<Longrightarrow> single_pass e base_dir (directive_text ws1 ws2 v ws3 @ rest)
               (str ''<!-- File not found: '' @ path_join base_dir (unquote e v) @ str '' -->''
                @ out)"
| Unreadable: "pattern_parts ws1 ws2 v ws3
         \<Longrightarrow> isfile e (path_join base_dir (unquote e v))
         \<Longrightarrow> read_text e (path_join base_dir (unquote e v)) = Inl msg
         \<Longrightarrow> single_pass e base_dir rest out
         \<Longrightarrow> single_pass e base_dir (directive_text ws1 ws2 v ws3 @ rest)
               (str ''<!-- Error including '' @ path_join base_dir (unquote e v) @ str '': ''
                @ msg @ str '' -->'' @ out)"

text \<open>
  An include directive of a document, as the pass finds it: \<open>directive_of doc before v after\<close>
  says that the pass over \<open>doc\<close> matches a directive with value \<open>v\<close>, that \<open>before\<close> is the
  text of the document in front of this match and \<open>after\<close> the text behind it.
\<close>

inductive directive_of :: "unicode \<Rightarrow> unicode \<Rightarrow> unicode \<Rightarrow> unicode \<Rightarrow> bool" where
  Here: "pattern_parts ws1 ws2 v ws3
         \<Longrightarrow> directive_of (directive_text ws1 ws2 v ws3 @ after) [] v after"
| Later: "\<not> directive_at (c # cs) \<Longrightarrow> directive_of cs before v after
         \<Longrightarrow> directive_of (c # cs) (c # before) v after"
| Next: "pattern_parts ws1 ws2 u ws3 \<Longrightarrow> directive_of rest before v after
         \<Longrightarrow> directive_of (directive_text ws1 ws2 u ws3 @ rest)
               (directive_text ws1 ws2 u ws3 @ before) v after"

text \<open>
  A request target that is a plain path: it has no query string (\<^verbatim>\<open>?\<close>) and no fragment
  (\<^verbatim>\<open>#\<close>).
\<close>

definition plain_target :: "unicode \<Rightarrow> bool" where
  "plain_target p = list_all (\<lambda>c. c \<noteq> 63 \<and> c \<noteq> 35) p"

section \<open>A small site, for concrete runs\<close>

text \<open>
  One file system with four served directories, each of them the working directory of
  the server that serves it: \<^verbatim>\<open>/srv\<close>; \<^verbatim>\<open>/vault\<close>, whose \<^verbatim>\<open>index.html\<close> cannot be opened;
  \<^verbatim>\<open>/raw\<close>, whose \<^verbatim>\<open>index.html\<close> is not UTF-8; and a directory whose name holds a byte that
  is not UTF-8, which Python shows as the lone surrogate U+DC80. The inherited and library
  functions are given on the targets and values used here, which have no escapes and no
  dot segments: \<open>translate_path\<close> drops the query string and the fragment and prefixes the
  directory, \<open>unquote\<close> returns its argument.
\<close>

definition ascii :: "unicode \<Rightarrow> bytes" where
  "ascii t = map of_nat t"

definition odd_dir :: unicode where
  "odd_dir = str ''/srv'' @ [0xDC80]"

definition quoted :: "unicode \<Rightarrow> unicode" where
  "quoted p = [39] @ p @ [39]"

definition demo_stat :: "unicode \<Rightarrow> kind option" where
  "demo_stat p =
     (if p = str ''/srv/'' \<or> p = str ''/srv/docs'' \<or> p = str ''/srv/old/'' then Some Dir
      else if p = str ''/srv/index.html'' \<or> p = str ''/srv/nav.html''
              \<or> p = str ''/srv/locked.html'' \<or> p = str ''/srv/bad.html''
              \<or> p = str ''/srv/logo.png'' \<or> p = str ''/srv/old/index.htm''
              \<or> p = str ''/vault/index.html'' \<or> p = str ''/raw/index.html''
              \<or> p = odd_dir @ str ''/index.html''
      then Some Reg
      else None)"

definition demo_open_rb :: "unicode \<Rightarrow> bytes option" where
  "demo_open_rb p =
     (if p = str ''/srv/index.html''
      then Some (ascii (directive_text [32] [32] (str ''nav.html'') [32]))
      else if p = str ''/srv/nav.html'' then Some (ascii (str ''<nav>Home</nav>''))
      else if p = str ''/srv/old/index.htm''
      then Some (ascii (directive_text [32] [32] (str ''/srv/nav.html'') [32]))
      else if p = str ''/srv/bad.html'' \<or> p = str ''/raw/index.html'' then Some [0xFF]
      else if p = str ''/srv/logo.png'' then Some [0x89, 0x50, 0x4E, 0x47]
      else if p = odd_dir @ str ''/index.html''
      then Some (ascii (directive_text [32] [32] (str ''missing.html'') [32]))
      else None)"

definition demo_read_text :: "unicode \<Rightarrow> unicode + unicode" where
  "demo_read_text p =
     (if p = str ''/srv/nav.html'' then Inr (str ''<nav>Home</nav>'')
      else if p = str ''/srv/index.html''
      then Inr (directive_text [32] [32] (str ''nav.html'') [32])
      else if p = str ''/srv/old/index.htm''
      then Inr (directive_text [32] [32] (str ''/srv/nav.html'') [32])
      else if p = odd_dir @ str ''/index.html''
      then Inr (directive_text [32] [32] (str ''missing.html'') [32])
      else if p = str ''/srv/bad.html'' \<or> p = str ''/raw/index.html''
      then Inl (quoted (str ''utf-8'') @ str '' codec can'' @ [39]
                @ str ''t decode byte 0xff in position 0: invalid start byte'')
      else if p = str ''/srv/logo.png''
      then Inl (quoted (str ''utf-8'') @ str '' codec can'' @ [39]
                @ str ''t decode byte 0x89 in position 0: invalid start byte'')
      else if p = str ''/srv/locked.html'' \<or> p = str ''/vault/index.html''
      then Inl (str ''[Errno 13] Permission denied: '' @ quoted p)
      else if demo_stat p = Some Dir then Inl (str ''[Errno 21] Is a directory: '' @ quoted p)
      else Inl (str ''[Errno 2] No such file or directory: '' @ quoted p))"

definition demo_translate :: "unicode \<Rightarrow> unicode \<Rightarrow> unicode" where
  "demo_translate directory target = directory @ takeWhile (\<lambda>c. c \<noteq> 63 \<and> c \<noteq> 35) target"

definition demo_guess_type :: "unicode \<Rightarrow> unicode" where
  "demo_guess_type p =
     (if endswith p (str ''.html'') \<or> endswith p (str ''.htm'') then str ''text/html''
      else if endswith p (str ''.png'') then str ''image/png''
      else if endswith p (str ''.json'') then str ''application/json''
      else str ''application/octet-stream'')"

definition site :: "unicode \<Rightarrow> environment" where
  "site directory =
     \<lparr> translate_path = demo_translate directory,
       guess_type = demo_guess_type,
       unquote = (\<lambda>s. s),
       getcwd = directory,
       stat = demo_stat,
       open_rb = demo_open_rb,
       read_text = demo_read_text \<rparr>"

definition demo_env :: environment where
  "demo_env = site (str ''/srv'')"

definition vault_env :: environment where
  "vault_env = site (str ''/vault'')"

definition raw_env :: environment where
  "raw_env = site (str ''/raw'')"

definition odd_env :: environment where
  "odd_env = site odd_dir"

definition request :: "string \<Rightarrow> handler" where
  "request p = \<lparr>self_path = str p, sent = []\<rparr>"

section \<open>The matcher finds exactly the directives of the pattern\<close>

lemma lit_Some: "lit p s = Some r \<longleftrightarrow> s = p @ r"
  by (auto simp: lit_def) (metis append_take_drop_id)

lemma lit_append: "lit p (p @ r) = Some r"
  by (simp add: lit_def)

lemma drop_spaces:
  "list_all is_space ws \<Longrightarrow> \<not> is_space c \<Longrightarrow> dropWhile is_space (ws @ c # r) = c # r"
  by (induction ws) auto

lemma take_spaces:
  "list_all is_space ws \<Longrightarrow> \<not> is_space c \<Longrightarrow> takeWhile is_space (ws @ c # r) = ws"
  by (induction ws) auto

lemma drop_value:
  "list_all not_dquote v \<Longrightarrow> dropWhile not_dquote (v @ dquote # r) = dquote # r"
  by (induction v) (auto simp: not_dquote_def)

lemma take_value:
  "list_all not_dquote v \<Longrightarrow> takeWhile not_dquote (v @ dquote # r) = v"
  by (induction v) (auto simp: not_dquote_def)

lemma str_include: "str ''#include'' = 35 # str ''include''"
  by (simp add: str_def)

lemma str_virtual: "str ''virtual='' = 118 # str ''irtual=''"
  by (simp add: str_def)

lemma str_close: "str ''-->'' = 45 # str ''->''"
  by (simp add: str_def)

lemma not_space_literals: "\<not> is_space 35" "\<not> is_space 118" "\<not> is_space 45"
  by (simp_all add: is_space_def)

lemma match_complete:
  assumes "pattern_parts ws1 ws2 v ws3"
  shows "match_directive (directive_text ws1 ws2 v ws3 @ rest) = Some (v, rest)"
proof -
  from assms have a: "list_all is_space ws1" "list_all is_space ws2" "ws2 \<noteq> []"
    "list_all not_dquote v" "v \<noteq> []" "list_all is_space ws3"
    by (simp_all add: pattern_parts_def)
  let ?t5 = "str ''-->'' @ rest"
  let ?t4 = "ws3 @ ?t5"
  let ?t3 = "v @ dquote # ?t4"
  let ?t2 = "ws2 @ (str ''virtual='' @ [dquote]) @ ?t3"
  let ?t1 = "ws1 @ str ''#include'' @ ?t2"
  have e: "directive_text ws1 ws2 v ws3 @ rest = str ''<!--'' @ ?t1"
    by (simp add: directive_text_def)
  have 1: "lit (str ''<!--'') (str ''<!--'' @ ?t1) = Some ?t1"
    by (rule lit_append)
  have 2: "dropWhile is_space ?t1 = str ''#include'' @ ?t2"
    using a(1) drop_spaces [of ws1 35] by (simp add: str_include not_space_literals)
  have 3: "takeWhile is_space ?t2 = ws2"
    using a(2) take_spaces [of ws2 118] by (simp add: str_virtual not_space_literals)
  have 4: "dropWhile is_space ?t2 = (str ''virtual='' @ [dquote]) @ ?t3"
    using a(2) drop_spaces [of ws2 118] by (simp add: str_virtual not_space_literals)
  have 5: "takeWhile not_dquote ?t3 = v"
    using a(4) by (rule take_value)
  have 6: "dropWhile not_dquote ?t3 = [dquote] @ ?t4"
    using a(4) drop_value [of v ?t4] by simp
  have 7: "dropWhile is_space ?t4 = ?t5"
    using a(6) drop_spaces [of ws3 45] by (simp add: str_close not_space_literals)
  show ?thesis
    unfolding e match_directive_def
    by (simp only: 1 2 3 4 5 6 7 lit_append Option.bind.simps a(3) a(5) if_False)
qed

lemma match_sound:
  assumes "match_directive s = Some (v, rest)"
  shows "\<exists>ws1 ws2 ws3. pattern_parts ws1 ws2 v ws3 \<and> s = directive_text ws1 ws2 v ws3 @ rest"
proof -
  from assms obtain s1 s2 s3 s4 where
    1: "lit (str ''<!--'') s = Some s1" and
    2: "lit (str ''#include'') (dropWhile is_space s1) = Some s2" and
    n2: "takeWhile is_space s2 \<noteq> []" and
    3: "lit (str ''virtual='' @ [dquote]) (dropWhile is_space s2) = Some s3" and
    n3: "takeWhile not_dquote s3 \<noteq> []" and v: "v = takeWhile not_dquote s3" and
    4: "lit [dquote] (dropWhile not_dquote s3) = Some s4" and
    5: "lit (str ''-->'') (dropWhile is_space s4) = Some rest"
    by (auto simp: match_directive_def split: bind_splits if_splits)
  let ?ws1 = "takeWhile is_space s1" and ?ws2 = "takeWhile is_space s2"
    and ?ws3 = "takeWhile is_space s4"
  have p: "pattern_parts ?ws1 ?ws2 v ?ws3"
    unfolding pattern_parts_def v using n2 n3
    by (auto simp: list_all_iff dest: set_takeWhileD)
  have "s = str ''<!--'' @ s1" using 1 by (simp add: lit_Some)
  also have "s1 = ?ws1 @ dropWhile is_space s1" by simp
  also have "dropWhile is_space s1 = str ''#include'' @ s2" using 2 by (simp add: lit_Some)
  also have "s2 = ?ws2 @ dropWhile is_space s2" by simp
  also have "dropWhile is_space s2 = (str ''virtual='' @ [dquote]) @ s3"
    using 3 by (simp only: lit_Some)
  also have "s3 = v @ dropWhile not_dquote s3" unfolding v by simp
  also have "dropWhile not_dquote s3 = [dquote] @ s4" using 4 by (simp only: lit_Some)
  also have "s4 = ?ws3 @ dropWhile is_space s4" by simp
  also have "dropWhile is_space s4 = str ''-->'' @ rest" using 5 by (simp add: lit_Some)
  finally have "s = directive_text ?ws1 ?ws2 v ?ws3 @ rest"
    by (simp add: directive_text_def)
  with p show ?thesis by blast
qed

lemma directive_at_iff: "directive_at s \<longleftrightarrow> match_directive s \<noteq> None"
proof
  assume "directive_at s"
  then show "match_directive s \<noteq> None"
    by (auto simp: directive_at_def match_complete)
next
  assume "match_directive s \<noteq> None"
  then obtain v rest where "match_directive s = Some (v, rest)" by auto
  from match_sound [OF this] show "directive_at s"
    unfolding directive_at_def by blast
qed

section \<open>The substitution pass\<close>

lemma directive_text_Cons:
  "directive_text ws1 ws2 v ws3 =
     60 # (str ''!--'' @ ws1 @ str ''#include'' @ ws2 @ str ''virtual='') @ [dquote] @ v
       @ dquote # ws3 @ str ''-->''"
  by (simp add: directive_text_def str_def)

lemma re_sub_directive:
  assumes "pattern_parts ws1 ws2 v ws3"
  shows "re_sub f (directive_text ws1 ws2 v ws3 @ rest) = f v @ re_sub f rest"
proof -
  obtain c cs where d: "directive_text ws1 ws2 v ws3 @ rest = c # cs"
    by (simp add: directive_text_Cons)
  have "match_directive (c # cs) = Some (v, rest)"
    using match_complete [OF assms, of rest] by (simp add: d)
  then have "re_sub f (c # cs) = f v @ re_sub f rest" by simp
  then show ?thesis by (simp add: d)
qed

lemma re_sub_copy: "match_directive (c # cs) = None \<Longrightarrow> re_sub f (c # cs) = c # re_sub f cs"
  by simp

lemma replace_include_cases:
  "replace_include e b v =
     (let p = path_join b (unquote e v)
      in if isfile e p then
           (case read_text e p of
              Inr content \<Rightarrow> content
            | Inl msg \<Rightarrow> str ''<!-- Error including '' @ p @ str '': '' @ msg @ str '' -->'')
         else str ''<!-- File not found: '' @ p @ str '' -->'')"
  by (auto simp: replace_include_def Let_def exists_def isfile_def)

lemma single_pass_re_sub: "single_pass e b doc (re_sub (replace_include e b) doc)"
proof (induction "replace_include e b" doc rule: re_sub.induct)
  case 1
  show ?case by (simp add: single_pass.Done)
next
  case (2 c cs)
  show ?case
  proof (cases "match_directive (c # cs)")
    case None
    then have "\<not> directive_at (c # cs)" by (simp add: directive_at_iff)
    moreover have "single_pass e b cs (re_sub (replace_include e b) cs)"
      using 2(1) None by simp
    ultimately show ?thesis using None by (simp add: single_pass.Copy)
  next
    case (Some p)
    obtain v rest where p: "p = (v, rest)" by (cases p)
    from Some p have m: "match_directive (c # cs) = Some (v, rest)" by simp
    from match_sound [OF m] obtain ws1 ws2 ws3 where
      pp: "pattern_parts ws1 ws2 v ws3" and d: "c # cs = directive_text ws1 ws2 v ws3 @ rest"
      by blast
    have ih: "single_pass e b rest (re_sub (replace_include e b) rest)"
      using 2(2) Some p by simp
    let ?p = "path_join b (unquote e v)"
    have r: "re_sub (replace_include e b) (c # cs)
               = replace_include e b v @ re_sub (replace_include e b) rest"
      using m by simp
    show ?thesis
    proof (cases "isfile e ?p")
      case False
      then have "replace_include e b v = str ''<!-- File not found: '' @ ?p @ str '' -->''"
        by (simp add: replace_include_cases)
      with single_pass.Missing [OF pp False ih]
      have "single_pass e b (c # cs)
              (replace_include e b v @ re_sub (replace_include e b) rest)"
        by (simp add: d)
      then show ?thesis by (simp only: r)
    next
      case True
      show ?thesis
      proof (cases "read_text e ?p")
        case (Inl msg)
        with True have "replace_include e b v
            = str ''<!-- Error including '' @ ?p @ str '': '' @ msg @ str '' -->''"
          by (simp add: replace_include_cases)
      with single_pass.Unreadable [OF pp True Inl ih]
      have "single_pass e b (c # cs)
              (replace_include e b v @ re_sub (replace_include e b) rest)"
        by (simp add: d)
      then show ?thesis by (simp only: r)
      next
        case (Inr content)
        with True have "replace_include e b v = content"
          by (simp add: replace_include_cases)
      with single_pass.Included [OF pp True Inr ih]
      have "single_pass e b (c # cs)
              (replace_include e b v @ re_sub (replace_include e b) rest)"
        by (simp add: d)
      then show ?thesis by (simp only: r)
      qed
    qed
  qed
qed

lemma single_pass_unique:
  "single_pass e b doc out \<Longrightarrow> out = re_sub (replace_include e b) doc"
proof (induction rule: single_pass.induct)
  case Done
  show ?case by simp
next
  case (Copy c cs out)
  from Copy.hyps(1) have "match_directive (c # cs) = None"
    by (simp only: directive_at_iff not_not)
  with Copy show ?case by simp
next
  case (Included ws1 ws2 v ws3 content rest out)
  then show ?case by (simp add: re_sub_directive replace_include_cases)
next
  case (Missing ws1 ws2 v ws3 rest out)
  then show ?case by (simp add: re_sub_directive replace_include_cases)
next
  case (Unreadable ws1 ws2 v ws3 msg rest out)
  then show ?case by (simp add: re_sub_directive replace_include_cases)
qed

section \<open>Resolution and serving\<close>

lemma not_exists_not_isdir: "\<not> exists e p \<Longrightarrow> \<not> isdir e p"
  by (simp add: exists_def isdir_def)

lemma isdir_exists: "isdir e p \<Longrightarrow> exists e p"
  by (simp add: exists_def isdir_def)

lemma resolve_missing:
  assumes "\<not> exists e (translate_path e rp)"
  shows "resolve e rp =
           (if endswith rp (str ''.html'')
            then if exists e (path_join (getcwd e) (str ''index.html''))
                 then Found (path_join (getcwd e) (str ''index.html'')) else NotFound
            else Default)"
  using assms not_exists_not_isdir [OF assms] by (simp add: resolve_def Let_def)

lemma resolve_directory:
  assumes "isdir e (translate_path e rp)"
  shows "resolve e rp =
           (if exists e (path_join (translate_path e rp) (str ''index.html''))
            then Found (path_join (translate_path e rp) (str ''index.html''))
            else if exists e (path_join (translate_path e rp) (str ''index.htm''))
            then Found (path_join (translate_path e rp) (str ''index.htm''))
            else Default)"
  using assms by (simp add: resolve_def Let_def)

lemma serve_unopened:
  "open_rb e p = None \<Longrightarrow> serve e p h = (ReturnNone, send_error 404 (str ''File not found'') h)"
  by (simp add: serve_def Let_def)

lemma serve_other:
  "open_rb e p = Some f \<Longrightarrow> guess_type e p \<noteq> str ''text/html''
     \<Longrightarrow> serve e p h = (ReturnFile f, ok_headers (guess_type e p) (length f) h)"
  by (simp add: serve_def Let_def)

lemma serve_html:
  "open_rb e p = Some f \<Longrightarrow> guess_type e p = str ''text/html''
     \<Longrightarrow> utf8_decode f = Some content
     \<Longrightarrow> utf8_encode (handle_includes e content (dirname p)) = Some encoded
     \<Longrightarrow> serve e p h = (ReturnFile encoded, ok_headers (str ''text/html'') (length encoded) h)"
  by (simp add: serve_def Let_def)

lemma serve_undecodable:
  "open_rb e p = Some f \<Longrightarrow> guess_type e p = str ''text/html'' \<Longrightarrow> utf8_decode f = None
     \<Longrightarrow> serve e p h = (Raise UnicodeDecodeError, h)"
  by (simp add: serve_def Let_def)

lemma send_head_found: "resolve e (self_path h) = Found p \<Longrightarrow> send_head e h = serve e p h"
  by (simp add: send_head_def)

lemma ok_headers_sent:
  "sent (ok_headers ctype n h) =
     sent h @ [SendResponse 200, SendHeader (str ''Content-type'') ctype,
               SendHeader (str ''Content-Length'') (str_nat n), EndHeaders]"
  by (simp add: ok_headers_def send_response_def send_header_def end_headers_def)

lemma ok_headers_path: "self_path (ok_headers ctype n h) = self_path h"
  by (simp add: ok_headers_def send_response_def send_header_def end_headers_def)

lemma send_error_sent: "sent (send_error c m h) = sent h @ [SendError c m]"
  by (simp add: send_error_def)

lemma send_error_path: "self_path (send_error c m h) = self_path h"
  by (simp add: send_error_def)

lemma decode_octets_ascii: "list_all (\<lambda>c. c < 128) t \<Longrightarrow> decode_octets t = Some t"
  by (induction t) auto

lemma encode_octets_ascii: "list_all (\<lambda>c. c < 128) t \<Longrightarrow> encode_octets t = Some t"
  by (induction t) (auto simp: encode_code_point_def)

lemma unat_ascii: "list_all (\<lambda>c. c < 128) t \<Longrightarrow> map unat (map of_nat t :: bytes) = t"
proof (induction t)
  case Nil
  show ?case by simp
next
  case (Cons c t)
  then have "c < 2 ^ LENGTH(8)" by simp
  then have "unat (of_nat c :: 8 word) = c" by (simp add: unat_of_nat)
  with Cons show ?case by simp
qed

lemma utf8_decode_ascii: "list_all (\<lambda>c. c < 128) t \<Longrightarrow> utf8_decode (ascii t) = Some t"
  using unat_ascii [of t] by (simp add: utf8_decode_def ascii_def decode_octets_ascii)

lemma utf8_encode_ascii: "list_all (\<lambda>c. c < 128) t \<Longrightarrow> utf8_encode t = Some (ascii t)"
  by (simp add: utf8_encode_def ascii_def encode_octets_ascii)

lemma serve_opened:
  assumes "open_rb e p = Some f"
  shows "(\<exists>body. serve e p h = (ReturnFile body, ok_headers (guess_type e p) (length body) h))
         \<or> (\<exists>x. serve e p h = (Raise x, h) \<and> guess_type e p = str ''text/html'')"
  using assms by (auto simp: serve_def Let_def split: option.splits)

section \<open>Runs on the small site\<close>

lemma demo_parts: "pattern_parts [32] [32] (str ''nav.html'') [32]"
  by (simp add: pattern_parts_def is_space_def not_dquote_def dquote_def str_def)

lemma demo_nav_path: "path_join (str ''/srv'') (unquote demo_env (str ''nav.html'')) = str ''/srv/nav.html''"
  by (simp add: path_join_def demo_env_def site_def demo_translate_def demo_guess_type_def str_def slash_def)

lemma demo_nav_isfile: "isfile demo_env (str ''/srv/nav.html'')"
  by (simp add: isfile_def demo_env_def site_def demo_translate_def demo_guess_type_def demo_stat_def odd_dir_def str_def)

lemma demo_nav_read: "read_text demo_env (str ''/srv/nav.html'') = Inr (str ''<nav>Home</nav>'')"
  by (simp add: demo_env_def site_def demo_translate_def demo_guess_type_def demo_read_text_def odd_dir_def)

lemma demo_nav_include: "replace_include demo_env (str ''/srv'') (str ''nav.html'') = str ''<nav>Home</nav>''"
  by (simp add: replace_include_cases Let_def demo_nav_path demo_nav_isfile demo_nav_read)

lemma demo_dirname: "dirname (str ''/srv/index.html'') = str ''/srv''"
  by (simp add: dirname_def str_def slash_def)

lemma demo_html_type: "guess_type demo_env (str ''/srv/index.html'') = str ''text/html''"
  by (simp add: demo_env_def site_def demo_translate_def demo_guess_type_def endswith_def str_def)

lemma demo_directive_ascii:
  "list_all (\<lambda>c. c < 128) (directive_text [32] [32] (str ''nav.html'') [32])"
  by (simp add: directive_text_def str_def dquote_def)

lemma demo_nav_ascii: "list_all (\<lambda>c. c < 128) (str ''<nav>Home</nav>'')"
  by (simp add: str_def)

lemma demo_index_expanded:
  "handle_includes demo_env (directive_text [32] [32] (str ''nav.html'') [32]) (str ''/srv'')
     = str ''<nav>Home</nav>''"
  unfolding handle_includes_def
  using re_sub_directive [OF demo_parts, of "replace_include demo_env (str ''/srv'')" "[]"]
  by (simp add: demo_nav_include)

lemma demo_index_served:
  "serve demo_env (str ''/srv/index.html'') h =
     (ReturnFile (ascii (str ''<nav>Home</nav>'')), ok_headers (str ''text/html'') 15 h)"
proof -
  have o: "open_rb demo_env (str ''/srv/index.html'')
             = Some (ascii (directive_text [32] [32] (str ''nav.html'') [32]))"
    by (simp add: demo_env_def site_def demo_translate_def demo_guess_type_def demo_open_rb_def odd_dir_def)
  have l: "length (ascii (str ''<nav>Home</nav>'')) = 15"
    by (simp add: ascii_def str_def)
  show ?thesis
    using serve_html [OF o demo_html_type utf8_decode_ascii [OF demo_directive_ascii], of
        "ascii (str ''<nav>Home</nav>'')" h]
    by (simp add: demo_dirname demo_index_expanded utf8_encode_ascii [OF demo_nav_ascii] l)
qed

lemma demo_missing_page:
  "endswith (self_path (request ''/x.html'')) (str ''.html'')"
  "\<not> exists demo_env (translate_path demo_env (self_path (request ''/x.html'')))"
  "\<not> exists vault_env (translate_path vault_env (self_path (request ''/x.html'')))"
  by (simp_all add: request_def endswith_def exists_def vault_env_def demo_env_def site_def demo_translate_def demo_guess_type_def
      demo_stat_def odd_dir_def str_def)

lemma demo_fallbacks:
  "path_join (getcwd demo_env) (str ''index.html'') = str ''/srv/index.html''"
  "path_join (getcwd vault_env) (str ''index.html'') = str ''/vault/index.html''"
  by (simp_all add: path_join_def vault_env_def demo_env_def site_def demo_translate_def demo_guess_type_def str_def slash_def)

lemma demo_fallback_exists:
  "exists demo_env (str ''/srv/index.html'')"
  "exists vault_env (str ''/vault/index.html'')"
  "isfile vault_env (str ''/vault/index.html'')"
  "open_rb vault_env (str ''/vault/index.html'') = None"
  by (simp_all add: exists_def isfile_def vault_env_def demo_env_def site_def demo_translate_def demo_guess_type_def demo_stat_def odd_dir_def
      demo_open_rb_def odd_dir_def str_def)

lemma demo_root:
  "isdir demo_env (translate_path demo_env (self_path (request ''/'')))"
  "isdir demo_env (translate_path demo_env (self_path (request ''/old/'')))"
  "isdir demo_env (translate_path demo_env (self_path (request ''/docs'')))"
  by (simp_all add: request_def isdir_def demo_env_def site_def demo_translate_def demo_guess_type_def demo_stat_def odd_dir_def str_def)

lemma demo_resolutions:
  "resolve demo_env (str ''/'') = Found (str ''/srv/index.html'')"
  "resolve demo_env (str ''/old/'') = Found (str ''/srv/old/index.htm'')"
  "resolve demo_env (str ''/docs'') = Default"
  "resolve demo_env (str ''/bad.html'') = Found (str ''/srv/bad.html'')"
  by (simp_all add: resolve_def Let_def isdir_def exists_def path_join_def demo_env_def site_def demo_translate_def demo_guess_type_def
      demo_stat_def odd_dir_def str_def slash_def)

lemma demo_missing_json:
  "\<not> endswith (self_path (request ''/data.json'')) (str ''.html'')"
  "\<not> exists demo_env (translate_path demo_env (self_path (request ''/data.json'')))"
  by (simp_all add: request_def endswith_def exists_def demo_env_def site_def demo_translate_def demo_guess_type_def demo_stat_def odd_dir_def str_def)

lemma demo_bad:
  "open_rb demo_env (str ''/srv/bad.html'') = Some [0xFF]"
  "guess_type demo_env (str ''/srv/bad.html'') = str ''text/html''"
  "utf8_decode [0xFF] = None"
  by (simp_all add: demo_env_def site_def demo_translate_def demo_guess_type_def demo_open_rb_def odd_dir_def endswith_def utf8_decode_def str_def)

section \<open>Include expansion\<close>

text \<open>
  Claim C2. Include expansion is a single pass and is not recursive: for every document
  and every output, the output is what \<open>handle_includes\<close> returns exactly when it
  arises from the document by one left-to-right pass in which each directive is replaced
  by the text read from the referenced file (or by the comment of its failure) and every
  other character is copied. The pass continues in the document behind the directive,
  never in the inserted text, so directives inside an included file stay as they are.
\<close>

theorem handle_includes_single_pass:
  "single_pass e base_dir content out \<longleftrightarrow> handle_includes e content base_dir = out"
  unfolding handle_includes_def
  using single_pass_re_sub [of e base_dir content] single_pass_unique [of e base_dir content out]
  by auto

theorem handle_includes_single_pass_witness:
  "single_pass demo_env (str ''/srv'') (directive_text [32] [32] (str ''nav.html'') [32])
     (str ''<nav>Home</nav>'')"
proof -
  have "handle_includes demo_env (directive_text [32] [32] (str ''nav.html'') [32])
          (str ''/srv'') = str ''<nav>Home</nav>''"
    unfolding handle_includes_def
    using re_sub_directive [OF demo_parts, of "replace_include demo_env (str ''/srv'')" "[]"]
    by (simp add: demo_nav_include)
  then show ?thesis
    using handle_includes_single_pass
      [of demo_env "str ''/srv''" "directive_text [32] [32] (str ''nav.html'') [32]"
          "str ''<nav>Home</nav>''"]
    by simp
qed

section \<open>Path resolution\<close>

text \<open>
  Claim C4. When the translated request path is a directory, \<^verbatim>\<open>index.html\<close> in it is
  selected if it exists, otherwise \<^verbatim>\<open>index.htm\<close> if that exists, and otherwise the request
  is handed to \<open>super().send_head()\<close>; a selected file is the one that is served.
\<close>

theorem directory_index_preference:
  assumes "isdir e (translate_path e (self_path h))"
  shows "resolve e (self_path h) =
           (if exists e (path_join (translate_path e (self_path h)) (str ''index.html''))
            then Found (path_join (translate_path e (self_path h)) (str ''index.html''))
            else if exists e (path_join (translate_path e (self_path h)) (str ''index.htm''))
            then Found (path_join (translate_path e (self_path h)) (str ''index.htm''))
            else Default)
         \<and> (resolve e (self_path h) = Default \<longrightarrow> send_head e h = (SuperSendHead, h))
         \<and> (\<forall>p. resolve e (self_path h) = Found p \<longrightarrow> send_head e h = serve e p h)"
  using resolve_directory [OF assms] by (simp add: send_head_def)

theorem directory_index_preference_witness:
  "resolve demo_env (self_path (request ''/'')) = Found (str ''/srv/index.html'')
   \<and> resolve demo_env (self_path (request ''/old/'')) = Found (str ''/srv/old/index.htm'')
   \<and> send_head demo_env (request ''/docs'') = (SuperSendHead, request ''/docs'')"
  using directory_index_preference [OF demo_root(1)] directory_index_preference [OF demo_root(2)]
    directory_index_preference [OF demo_root(3)]
  by (simp add: request_def demo_resolutions)

section \<open>Serving the resolved file\<close>

text \<open>
  Claim C10. If the resolved file has content type \<^verbatim>\<open>text/html\<close> and its bytes are not valid
  UTF-8, \<open>send_head\<close> ends with the uncaught \<open>UnicodeDecodeError\<close> and has sent nothing:
  neither a 404 nor a response with an error comment.
\<close>

theorem undecodable_html_raises:
  assumes "resolve e (self_path h) = Found p"
    and "open_rb e p = Some f"
    and "guess_type e p = str ''text/html''"
    and "utf8_decode f = None"
  shows "send_head e h = (Raise UnicodeDecodeError, h)"
  using assms by (simp add: send_head_found serve_undecodable)

theorem undecodable_html_raises_witness:
  "send_head demo_env (request ''/bad.html'') = (Raise UnicodeDecodeError, request ''/bad.html'')"
proof -
  have "resolve demo_env (self_path (request ''/bad.html'')) = Found (str ''/srv/bad.html'')"
    by (simp add: request_def demo_resolutions)
  from undecodable_html_raises [OF this demo_bad] show ?thesis .
qed

lemma str_nat_15: "str_nat 15 = str ''15''"
  by (simp add: str_nat.simps [of 15] str_nat.simps [of 1] str_nat.simps [of "Suc 0"] str_def)

lemma request_sent: "sent (request p) = []"
  by (simp add: request_def)

lemma request_path: "self_path (request p) = str p"
  by (simp add: request_def)

lemma serve_html_cases:
  assumes "guess_type e p = str ''text/html''" and "serve e p h = (r, h')"
  shows "case r of
           ReturnFile body \<Rightarrow>
             (\<exists>f content. open_rb e p = Some f \<and> utf8_decode f = Some content
                \<and> utf8_encode (handle_includes e content (dirname p)) = Some body)
             \<and> sent h' = sent h @
                 [SendResponse 200, SendHeader (str ''Content-type'') (str ''text/html''),
                  SendHeader (str ''Content-Length'') (str_nat (length body)), EndHeaders]
         | ReturnNone \<Rightarrow>
             open_rb e p = None \<and> sent h' = sent h @ [SendError 404 (str ''File not found'')]
         | SuperSendHead \<Rightarrow> False
         | Raise x \<Rightarrow> sent h' = sent h"
  using assms
  by (auto simp: serve_def Let_def ok_headers_sent send_error_sent split: option.splits)

text \<open>
  Claim C6. For an HTML response the \<^verbatim>\<open>Content-Length\<close> header is the decimal byte length of
  the body, and the body is the UTF-8 encoding of the expanded content of the opened
  file. The status line and the headers are the last thing \<open>send_head\<close> does: when decoding
  or encoding raises, nothing has been sent, and a failed open sends the 404 only.
\<close>

theorem html_content_length:
  assumes "resolve e (self_path h) = Found p"
    and "guess_type e p = str ''text/html''"
    and "send_head e h = (r, h')"
  shows "case r of
           ReturnFile body \<Rightarrow>
             (\<exists>f content. open_rb e p = Some f \<and> utf8_decode f = Some content
                \<and> utf8_encode (handle_includes e content (dirname p)) = Some body)
             \<and> sent h' = sent h @
                 [SendResponse 200, SendHeader (str ''Content-type'') (str ''text/html''),
                  SendHeader (str ''Content-Length'') (str_nat (length body)), EndHeaders]
         | ReturnNone \<Rightarrow>
             open_rb e p = None \<and> sent h' = sent h @ [SendError 404 (str ''File not found'')]
         | SuperSendHead \<Rightarrow> False
         | Raise x \<Rightarrow> sent h' = sent h"
  using serve_html_cases [OF assms(2), of h r h'] assms(1,3) by (simp add: send_head_found)

theorem html_content_length_witness:
  "sent (snd (send_head demo_env (request ''/''))) =
     [SendResponse 200, SendHeader (str ''Content-type'') (str ''text/html''),
      SendHeader (str ''Content-Length'') (str ''15''), EndHeaders]
   \<and> fst (send_head demo_env (request ''/'')) = ReturnFile (ascii (str ''<nav>Home</nav>''))
   \<and> length (ascii (str ''<nav>Home</nav>'')) = 15"
proof -
  have r: "resolve demo_env (self_path (request ''/'')) = Found (str ''/srv/index.html'')"
    by (simp add: request_path demo_resolutions)
  have s: "send_head demo_env (request ''/'') =
      (ReturnFile (ascii (str ''<nav>Home</nav>'')),
       ok_headers (str ''text/html'') 15 (request ''/''))"
    by (simp add: send_head_found [OF r] demo_index_served)
  have l: "length (ascii (str ''<nav>Home</nav>'')) = 15"
    by (simp add: ascii_def str_def)
  from html_content_length [OF r demo_html_type s] show ?thesis
    by (simp add: s l str_nat_15 ok_headers_sent request_sent)
qed

section \<open>Repeating a request\<close>

lemma send_head_appends:
  "\<exists>r calls. \<forall>h. self_path h = rp \<longrightarrow> send_head e h = (r, h\<lparr>sent := sent h @ calls\<rparr>)"
proof (cases "resolve e rp")
  case Default
  then have "\<forall>h. self_path h = rp \<longrightarrow> send_head e h = (SuperSendHead, h\<lparr>sent := sent h @ []\<rparr>)"
    by (simp add: send_head_def)
  then show ?thesis by blast
next
  case NotFound
  then have "\<forall>h. self_path h = rp \<longrightarrow> send_head e h
      = (ReturnNone, h\<lparr>sent := sent h @ [SendError 404 (str ''File not found'')]\<rparr>)"
    by (simp add: send_head_def send_error_def)
  then show ?thesis by blast
next
  case (Found p)
  have "\<exists>r calls. \<forall>h. serve e p h = (r, h\<lparr>sent := sent h @ calls\<rparr>)"
  proof (cases "open_rb e p")
    case None
    then have "\<forall>h. serve e p h
        = (ReturnNone, h\<lparr>sent := sent h @ [SendError 404 (str ''File not found'')]\<rparr>)"
      by (simp add: serve_def send_error_def)
    then show ?thesis by blast
  next
    case (Some f)
    have ok: "\<And>c n h. ok_headers c n h = h\<lparr>sent := sent h @
        [SendResponse 200, SendHeader (str ''Content-type'') c,
         SendHeader (str ''Content-Length'') (str_nat n), EndHeaders]\<rparr>"
      by (simp add: ok_headers_def send_response_def send_header_def end_headers_def)
    show ?thesis
    proof (cases "guess_type e p = str ''text/html''")
      case False
      with Some have "\<forall>h. serve e p h = (ReturnFile f, h\<lparr>sent := sent h @
          [SendResponse 200, SendHeader (str ''Content-type'') (guess_type e p),
           SendHeader (str ''Content-Length'') (str_nat (length f)), EndHeaders]\<rparr>)"
        by (simp add: serve_def Let_def ok)
      then show ?thesis by blast
    next
      case True
      show ?thesis
      proof (cases "utf8_decode f")
        case None
        with Some True have "\<forall>h. serve e p h = (Raise UnicodeDecodeError, h\<lparr>sent := sent h @ []\<rparr>)"
          by (simp add: serve_def Let_def)
        then show ?thesis by blast
      next
        case (Some content)
        note c = this
        show ?thesis
        proof (cases "utf8_encode (handle_includes e content (dirname p))")
          case None
          with \<open>open_rb e p = Some f\<close> True c
          have "\<forall>h. serve e p h = (Raise UnicodeEncodeError, h\<lparr>sent := sent h @ []\<rparr>)"
            by (simp add: serve_def Let_def)
          then show ?thesis by blast
        next
          case (Some encoded)
          with \<open>open_rb e p = Some f\<close> True c
          have "\<forall>h. serve e p h = (ReturnFile encoded, h\<lparr>sent := sent h @
              [SendResponse 200, SendHeader (str ''Content-type'') (str ''text/html''),
               SendHeader (str ''Content-Length'') (str_nat (length encoded)), EndHeaders]\<rparr>)"
            by (simp add: serve_def Let_def ok)
          then show ?thesis by blast
        qed
      qed
    qed
  qed
  then obtain r calls where "\<forall>h. serve e p h = (r, h\<lparr>sent := sent h @ calls\<rparr>)"
    by blast
  with Found have "\<forall>h. self_path h = rp \<longrightarrow> send_head e h = (r, h\<lparr>sent := sent h @ calls\<rparr>)"
    by (simp add: send_head_def)
  then show ?thesis by blast
qed

text \<open>
  Claim C7. \<open>send_head\<close> reads the environment and the request path and leaves both as they
  are; all it changes is the list of calls it has sent. Run again on the handler it
  returned, with the same environment, it resolves the path to the same outcome, returns
  the same value (the same bytes) and sends the same calls again.
\<close>

theorem send_head_repeatable:
  assumes "send_head e h = (r, h')"
  shows "\<exists>calls. h' = h\<lparr>sent := sent h @ calls\<rparr>
           \<and> resolve e (self_path h') = resolve e (self_path h)
           \<and> send_head e h' = (r, h'\<lparr>sent := sent h' @ calls\<rparr>)"
proof -
  from send_head_appends [of "self_path h" e] obtain r0 calls where
    a: "\<forall>g. self_path g = self_path h \<longrightarrow> send_head e g = (r0, g\<lparr>sent := sent g @ calls\<rparr>)"
    by blast
  from a assms have 1: "r = r0" "h' = h\<lparr>sent := sent h @ calls\<rparr>" by auto
  then have "self_path h' = self_path h" by simp
  with a have "send_head e h' = (r0, h'\<lparr>sent := sent h' @ calls\<rparr>)" by blast
  with 1 show ?thesis by auto
qed

theorem send_head_repeatable_witness:
  "\<exists>calls. ok_headers (str ''text/html'') 15 (request ''/'') = (request ''/'')\<lparr>sent := sent (request ''/'') @ calls\<rparr>
     \<and> resolve demo_env (self_path (ok_headers (str ''text/html'') 15 (request ''/'')))
         = resolve demo_env (self_path (request ''/''))
     \<and> send_head demo_env (ok_headers (str ''text/html'') 15 (request ''/'')) =
         (ReturnFile (ascii (str ''<nav>Home</nav>'')),
          (ok_headers (str ''text/html'') 15 (request ''/''))
            \<lparr>sent := sent (ok_headers (str ''text/html'') 15 (request ''/'')) @ calls\<rparr>)"
proof -
  have r: "resolve demo_env (self_path (request ''/'')) = Found (str ''/srv/index.html'')"
    by (simp add: request_path demo_resolutions)
  have s: "send_head demo_env (request ''/'') =
      (ReturnFile (ascii (str ''<nav>Home</nav>'')),
       ok_headers (str ''text/html'') 15 (request ''/''))"
    by (simp add: send_head_found [OF r] demo_index_served)
  from send_head_repeatable [OF s] show ?thesis .
qed

section \<open>Directives and their replacement\<close>

lemma handle_includes_directive:
  assumes "pattern_parts ws1 ws2 v ws3"
  shows "handle_includes e (directive_text ws1 ws2 v ws3 @ rest) base_dir
           = replace_include e base_dir v @ handle_includes e rest base_dir"
  by (simp add: handle_includes_def re_sub_directive [OF assms])

lemma handle_includes_Nil: "handle_includes e [] base_dir = []"
  by (simp add: handle_includes_def)

section \<open>Which occurrences of the syntax are expanded\<close>

text \<open>
  A match that starts before a directive can reach into it only through the directive's
  value: the match's own value must then run up to the directive's opening quote, and the
  directive's value must begin with the closing \<^verbatim>\<open>-->\<close> of the match.
\<close>

lemma split_at_occurrence:
  "xs @ a # ys = P @ u @ S \<Longrightarrow> a \<notin> set P \<Longrightarrow> a \<notin> set S
     \<Longrightarrow> \<exists>u1 u2. u = u1 @ a # u2 \<and> xs = P @ u1 \<and> ys = u2 @ S"
proof (induction P arbitrary: xs)
  case Nil
  then have "xs @ a # ys = u @ S" by simp
  then obtain us where
    "(xs @ us = u \<and> a # ys = us @ S) \<or> (xs = u @ us \<and> us @ a # ys = S)"
    by (auto simp: append_eq_append_conv2)
  then show ?case
  proof
    assume h: "xs @ us = u \<and> a # ys = us @ S"
    with Nil(3) have "us \<noteq> []" by auto
    with h obtain us' where "us = a # us'" "ys = us' @ S" by (cases us) auto
    with h show ?thesis by auto
  next
    assume "xs = u @ us \<and> us @ a # ys = S"
    with Nil(3) show ?thesis by auto
  qed
next
  case (Cons p P)
  from Cons.prems obtain xs' where "xs = p # xs'" by (cases xs) auto
  with Cons show ?case by auto
qed

lemma first_occurrence:
  "xs @ a # ys = xs' @ a # ys' \<Longrightarrow> a \<notin> set xs \<Longrightarrow> a \<notin> set xs' \<Longrightarrow> xs = xs' \<and> ys = ys'"
proof (induction xs arbitrary: xs')
  case Nil
  then show ?case by (cases xs') auto
next
  case (Cons x xs)
  then show ?case by (cases xs') auto
qed

lemma prefix_before:
  "v @ q # X = C @ R \<Longrightarrow> q \<notin> set C \<Longrightarrow> \<exists>v'. v = C @ v'"
proof (induction C arbitrary: v)
  case Nil
  show ?case by simp
next
  case (Cons c C)
  then show ?case by (cases v) auto
qed

lemma space_free: "list_all is_space ws \<Longrightarrow> 60 \<notin> set ws \<and> dquote \<notin> set ws"
  by (auto simp: list_all_iff is_space_def dquote_def)

lemma head_free:
  assumes "list_all is_space ws1" and "list_all is_space ws2"
  shows "60 \<notin> set (str ''!--'' @ ws1 @ str ''#include'' @ ws2 @ str ''virtual='')"
    and "dquote \<notin> set (str ''!--'' @ ws1 @ str ''#include'' @ ws2 @ str ''virtual='')"
  using space_free [OF assms(1)] space_free [OF assms(2)]
  by (simp_all add: str_def dquote_def)

lemma tail_free:
  assumes "list_all is_space ws3"
  shows "60 \<notin> set (ws3 @ str ''-->'')" and "dquote \<notin> set (ws3 @ str ''-->'')"
  using space_free [OF assms] by (simp_all add: str_def dquote_def)

lemma closes_early_intro:
  assumes "list_all is_space ws" shows "closes_early (ws @ str ''-->'' @ v')"
proof -
  have "dropWhile is_space (ws @ str ''-->'' @ v') = str ''-->'' @ v'"
    using assms drop_spaces [of ws 45] by (simp add: str_close not_space_literals)
  then show ?thesis by (simp add: closes_early_def lit_append)
qed

lemma no_straddle:
  assumes m: "pattern_parts w1 w2 u w3" and d: "pattern_parts x1 x2 v x3"
    and eq: "pre @ directive_text x1 x2 v x3 @ post = directive_text w1 w2 u w3 @ rest"
    and ne: "pre \<noteq> []" and lt: "length pre < length (directive_text w1 w2 u w3)"
  shows "closes_early v"
proof -
  let ?A = "str ''!--'' @ w1 @ str ''#include'' @ w2 @ str ''virtual=''"
  let ?B = "str ''!--'' @ x1 @ str ''#include'' @ x2 @ str ''virtual=''"
  let ?M = "directive_text w1 w2 u w3" and ?D = "directive_text x1 x2 v x3"
  from m d have sp: "list_all is_space w1" "list_all is_space w2" "list_all is_space w3"
    "list_all is_space x1" "list_all is_space x2" "list_all not_dquote u" "list_all not_dquote v"
    by (simp_all add: pattern_parts_def)
  from sp have uq: "dquote \<notin> set u" and vq: "dquote \<notin> set v"
    by (auto simp: list_all_iff not_dquote_def)
  have M: "?M = 60 # ?A @ [dquote] @ u @ dquote # w3 @ str ''-->''"
    by (rule directive_text_Cons)
  have D: "?D = 60 # ?B @ [dquote] @ v @ dquote # x3 @ str ''-->''"
    by (rule directive_text_Cons)
  from eq obtain us where
    "(pre @ us = ?M \<and> ?D @ post = us @ rest) \<or> (pre = ?M @ us \<and> us @ ?D @ post = rest)"
    by (auto simp: append_eq_append_conv2)
  with lt have 1: "pre @ us = ?M" and 2: "?D @ post = us @ rest" by auto
  from 1 lt have "us \<noteq> []" by auto
  with 2 D obtain m3 where us: "us = 60 # m3"
    and 3: "(?B @ [dquote] @ v @ dquote # x3 @ str ''-->'') @ post = m3 @ rest"
    by (cases us) auto
  from ne 1 M obtain pre0 where pre: "pre = 60 # pre0" by (cases pre) auto
  from 1 M pre us have "pre0 @ 60 # m3 = (?A @ [dquote]) @ u @ (dquote # w3 @ str ''-->'')"
    by simp
  from split_at_occurrence [OF this] head_free(1) [OF sp(1) sp(2)] tail_free(1) [OF sp(3)]
  obtain u1 u2 where u: "u = u1 @ 60 # u2" and m3: "m3 = u2 @ dquote # w3 @ str ''-->''"
    by (auto simp: dquote_def)
  from u uq have u2q: "dquote \<notin> set u2" by simp
  from 3 m3 have "?B @ dquote # (v @ dquote # x3 @ str ''-->'' @ post)
      = u2 @ dquote # (w3 @ str ''-->'' @ rest)"
    by simp
  from first_occurrence [OF this head_free(2) [OF sp(4) sp(5)] u2q]
  have "v @ dquote # (x3 @ str ''-->'' @ post) = (w3 @ str ''-->'') @ rest" by simp
  from prefix_before [OF this tail_free(2) [OF sp(3)]]
  obtain v' where "v = (w3 @ str ''-->'') @ v'" ..
  then have "v = w3 @ str ''-->'' @ v'" by simp
  with closes_early_intro [OF sp(3), of v'] show ?thesis by simp
qed

lemma longer_prefix:
  assumes "a @ X = M @ r" and "length M \<le> length a"
  shows "\<exists>y. a = M @ y \<and> r = y @ X"
proof -
  from assms(1) obtain us where
    "(a @ us = M \<and> X = us @ r) \<or> (a = M @ us \<and> us @ X = r)"
    by (auto simp: append_eq_append_conv2)
  then show ?thesis
  proof
    assume h: "a @ us = M \<and> X = us @ r"
    with assms(2) have "us = []" by auto
    with h show ?thesis by auto
  next
    assume "a = M @ us \<and> us @ X = r"
    then show ?thesis by auto
  qed
qed

lemma re_sub_around:
  assumes pp: "pattern_parts ws1 ws2 v ws3" and ce: "\<not> closes_early v"
  shows "re_sub f (pre @ directive_text ws1 ws2 v ws3 @ post)
           = re_sub f pre @ f v @ re_sub f post"
proof (induction f pre rule: re_sub.induct)
  case (1 repl)
  show ?case by (simp add: re_sub_directive [OF pp])
next
  case (2 repl c cs)
  let ?D = "directive_text ws1 ws2 v ws3"
  show ?case
  proof (cases "match_directive (c # cs)")
    case None
    have n: "match_directive (c # (cs @ ?D @ post)) = None"
    proof (rule ccontr)
      assume "match_directive (c # (cs @ ?D @ post)) \<noteq> None"
      then obtain u r where s: "match_directive ((c # cs) @ ?D @ post) = Some (u, r)" by auto
      from match_sound [OF s] obtain w1 w2 w3 where
        p: "pattern_parts w1 w2 u w3" and e: "(c # cs) @ ?D @ post = directive_text w1 w2 u w3 @ r"
        by blast
      show False
      proof (cases "length (c # cs) < length (directive_text w1 w2 u w3)")
        case True
        from no_straddle [OF p pp e _ True] ce show False by simp
      next
        case False
        then have "length (directive_text w1 w2 u w3) \<le> length (c # cs)" by simp
        from longer_prefix [OF e this] obtain y where "c # cs = directive_text w1 w2 u w3 @ y"
          by blast
        with match_complete [OF p, of y] None show False by simp
      qed
    qed
    from 2(1) [OF None] n None show ?thesis by simp
  next
    case (Some x)
    obtain u y where x: "x = (u, y)" by (cases x)
    from Some x have s: "match_directive (c # cs) = Some (u, y)" by simp
    from match_sound [OF s] obtain w1 w2 w3 where
      p: "pattern_parts w1 w2 u w3" and e: "c # cs = directive_text w1 w2 u w3 @ y"
      by blast
    have "re_sub repl ((c # cs) @ ?D @ post) = repl u @ re_sub repl (y @ ?D @ post)"
      using re_sub_directive [OF p, of repl "y @ ?D @ post"] by (simp add: e)
    also have "re_sub repl (y @ ?D @ post) = re_sub repl y @ repl v @ re_sub repl post"
      using 2(2) Some x by simp
    finally show ?thesis using s by simp
  qed
qed

lemma no_match_without_lt: "c \<noteq> 60 \<Longrightarrow> match_directive (c # cs) = None"
  by (simp add: match_directive_def lit_def str_def)

lemma re_sub_plain: "60 \<notin> set s \<Longrightarrow> re_sub f s = s"
  by (induction s) (simp_all add: no_match_without_lt)

lemma handle_includes_plain: "60 \<notin> set s \<Longrightarrow> handle_includes e s base_dir = s"
  by (simp add: handle_includes_def re_sub_plain)

lemma handle_includes_unmatched:
  "match_directive (60 # s) = None \<Longrightarrow> 60 \<notin> set s \<Longrightarrow> handle_includes e (60 # s) base_dir = 60 # s"
  by (simp add: handle_includes_def re_sub_plain)

lemma demo_nav_open: "\<not> closes_early (str ''nav.html'')"
  by (simp add: closes_early_def lit_def str_def is_space_def)

lemma demo_paragraph:
  "handle_includes demo_env (str ''<p>'') (str ''/srv'') = str ''<p>''"
  "handle_includes demo_env (str ''</p>'') (str ''/srv'') = str ''</p>''"
  by (simp_all add: handle_includes_def match_directive_def lit_def str_def)

lemma empty_value_text:
  "directive_text [32] [32] [] [32] = 60 # str ''!-- #include virtual='' @ [dquote, dquote] @ str '' -->''"
  by (simp add: directive_text_def str_def)

lemma empty_value_unmatched:
  "match_directive (60 # str ''!-- #include virtual='' @ [dquote, dquote] @ str '' -->'') = None"
  by (simp add: match_directive_def lit_def str_def is_space_def not_dquote_def dquote_def)

lemma glued_text:
  "directive_text [32] [] (str ''nav.html'') [32]
     = 60 # str ''!-- #includevirtual='' @ [dquote] @ str ''nav.html'' @ [dquote] @ str '' -->''"
  by (simp add: directive_text_def str_def)

lemma glued_unmatched:
  "match_directive
     (60 # str ''!-- #includevirtual='' @ [dquote] @ str ''nav.html'' @ [dquote] @ str '' -->'')
     = None"
  by (simp add: match_directive_def lit_def str_def is_space_def not_dquote_def dquote_def)

lemma straddle_parts: "pattern_parts [32] [32] (str ''a<!-- #include virtual='') []"
  by (simp add: pattern_parts_def is_space_def not_dquote_def dquote_def str_def)

lemma straddle_text:
  "str ''<!-- #include virtual='' @ [dquote] @ str ''a''
     @ directive_text [32] [32] (str ''-->x'') [32]
   = directive_text [32] [32] (str ''a<!-- #include virtual='') []
     @ str ''x'' @ [dquote] @ str '' -->''"
  by (simp add: directive_text_def str_def)

lemma straddle_replacement:
  "replace_include demo_env (str ''/srv'') (str ''a<!-- #include virtual='')
     = str ''<!-- File not found: /srv/a<!-- #include virtual= -->''"
  by (simp add: replace_include_def Let_def path_join_def exists_def demo_env_def site_def demo_translate_def demo_guess_type_def demo_stat_def odd_dir_def
      str_def slash_def)

text \<open>
  Claim C8, as amended. Every occurrence of \<^verbatim>\<open><!--\<close>, optional whitespace, \<^verbatim>\<open>#include\<close>, at
  least one whitespace character, \<^verbatim>\<open>virtual="PATH"\<close>, optional whitespace, \<^verbatim>\<open>-->\<close>, in which
  \<open>PATH\<close> is a non-empty sequence of characters without a double quote that does not begin
  (after optional whitespace) with \<^verbatim>\<open>-->\<close>, is recognized and expanded, whatever text
  precedes and follows it: the text before and the text after are expanded on their own.
\<close>

theorem directive_recognized:
  assumes "pattern_parts ws1 ws2 v ws3" and "\<not> closes_early v"
  shows "handle_includes e (pre @ directive_text ws1 ws2 v ws3 @ post) base_dir
           = handle_includes e pre base_dir @ replace_include e base_dir v
             @ handle_includes e post base_dir"
  unfolding handle_includes_def by (rule re_sub_around [OF assms])

theorem directive_recognized_witness:
  "handle_includes demo_env
     (str ''<p>'' @ directive_text [32] [32] (str ''nav.html'') [32] @ str ''</p>'') (str ''/srv'')
     = str ''<p>'' @ str ''<nav>Home</nav>'' @ str ''</p>''"
  using directive_recognized [OF demo_parts demo_nav_open, of demo_env "str ''<p>''" "str ''</p>''"
      "str ''/srv''"]
  by (simp only: demo_paragraph demo_nav_include)

text \<open>
  The syntax as the specification words it admits more: an empty \<open>PATH\<close>, no whitespace
  between \<^verbatim>\<open>#include\<close> and \<^verbatim>\<open>virtual\<close>, and a \<open>PATH\<close> that begins with \<^verbatim>\<open>-->\<close>. The first two
  are left in the output as they are; the third is swallowed by a match that starts at an
  unfinished directive before it.
\<close>

theorem directive_unrecognized:
  "spec_parts [32] [32] [] [32]
   \<and> handle_includes demo_env (directive_text [32] [32] [] [32]) (str ''/srv'')
       = directive_text [32] [32] [] [32]
   \<and> spec_parts [32] [] (str ''nav.html'') [32]
   \<and> handle_includes demo_env (directive_text [32] [] (str ''nav.html'') [32]) (str ''/srv'')
       = directive_text [32] [] (str ''nav.html'') [32]
   \<and> spec_parts [32] [32] (str ''-->x'') [32]
   \<and> handle_includes demo_env
        (str ''<!-- #include virtual='' @ [dquote] @ str ''a''
           @ directive_text [32] [32] (str ''-->x'') [32]) (str ''/srv'')
       = str ''<!-- File not found: /srv/a<!-- #include virtual= -->''
           @ str ''x'' @ [dquote] @ str '' -->''"
proof -
  have s: "spec_parts [32] [32] [] [32]" "spec_parts [32] [] (str ''nav.html'') [32]"
    "spec_parts [32] [32] (str ''-->x'') [32]"
    by (simp_all add: spec_parts_def is_space_def not_dquote_def dquote_def str_def)
  have a: "handle_includes demo_env (directive_text [32] [32] [] [32]) (str ''/srv'')
      = directive_text [32] [32] [] [32]"
    unfolding empty_value_text
    by (rule handle_includes_unmatched [OF empty_value_unmatched]) (simp add: str_def dquote_def)
  have b: "handle_includes demo_env (directive_text [32] [] (str ''nav.html'') [32]) (str ''/srv'')
      = directive_text [32] [] (str ''nav.html'') [32]"
    unfolding glued_text
    by (rule handle_includes_unmatched [OF glued_unmatched]) (simp add: str_def dquote_def)
  have "60 \<notin> set (str ''x'' @ [dquote] @ str '' -->'')"
    by (simp add: str_def dquote_def)
  then have "handle_includes demo_env (str ''x'' @ [dquote] @ str '' -->'') (str ''/srv'')
      = str ''x'' @ [dquote] @ str '' -->''"
    by (rule handle_includes_plain)
  then have c: "handle_includes demo_env
      (str ''<!-- #include virtual='' @ [dquote] @ str ''a''
         @ directive_text [32] [32] (str ''-->x'') [32]) (str ''/srv'')
      = str ''<!-- File not found: /srv/a<!-- #include virtual= -->''
          @ str ''x'' @ [dquote] @ str '' -->''"
    unfolding straddle_text
    by (simp only: handle_includes_directive [OF straddle_parts] straddle_replacement)
  from s a b c show ?thesis by blast
qed

section \<open>Directives anywhere in a document\<close>

lemma directive_of_split: "directive_of doc before v after \<Longrightarrow> \<exists>d. doc = before @ d @ after"
proof (induction rule: directive_of.induct)
  case (Here ws1 ws2 v ws3 after)
  show ?case by simp
next
  case (Later c cs before v after)
  then show ?case by auto
next
  case (Next ws1 ws2 u ws3 rest before v after)
  then show ?case by auto
qed

lemma directive_at_append: "directive_at s \<Longrightarrow> directive_at (s @ t)"
  unfolding directive_at_def by (metis append.assoc)

lemma re_sub_directive_of:
  "directive_of doc before v after \<Longrightarrow> re_sub f doc = re_sub f before @ f v @ re_sub f after"
proof (induction rule: directive_of.induct)
  case (Here ws1 ws2 v ws3 after)
  then show ?case by (simp add: re_sub_directive)
next
  case (Later c cs before v after)
  from Later.hyps(1) have n: "match_directive (c # cs) = None"
    by (simp only: directive_at_iff not_not)
  from directive_of_split [OF Later.hyps(2)] obtain d where "cs = before @ d @ after" ..
  with Later.hyps(1) directive_at_append [of "c # before" "d @ after"]
  have "\<not> directive_at (c # before)" by auto
  then have "match_directive (c # before) = None" by (simp only: directive_at_iff not_not)
  with n Later.IH show ?case by simp
next
  case (Next ws1 ws2 u ws3 rest before v after)
  then show ?case by (simp add: re_sub_directive)
qed

lemma no_match_paragraph: "match_directive (60 # 112 # cs) = None"
  by (simp add: match_directive_def lit_def str_def)

lemma directive_of_paragraph:
  assumes "pattern_parts ws1 ws2 v ws3"
  shows "directive_of (str ''<p>'' @ directive_text ws1 ws2 v ws3 @ after) (str ''<p>'') v after"
proof -
  let ?D = "directive_text ws1 ws2 v ws3 @ after"
  have 0: "directive_of ?D [] v after" by (rule directive_of.Here [OF assms])
  have "\<not> directive_at (62 # ?D)"
    by (simp add: directive_at_iff no_match_without_lt)
  from directive_of.Later [OF this 0] have 1: "directive_of (62 # ?D) [62] v after" .
  have "\<not> directive_at (112 # 62 # ?D)"
    by (simp add: directive_at_iff no_match_without_lt)
  from directive_of.Later [OF this 1] have 2: "directive_of (112 # 62 # ?D) [112, 62] v after" .
  have "\<not> directive_at (60 # 112 # 62 # ?D)"
    by (simp add: directive_at_iff no_match_paragraph)
  from directive_of.Later [OF this 2] show ?thesis by (simp add: str_def)
qed

lemma dirname_split:
  assumes "slash \<notin> set name" and "d \<noteq> []" and "last d \<noteq> slash"
  shows "dirname (d @ slash # name) = d"
proof -
  have "dropWhile (\<lambda>c. c \<noteq> slash) (rev name @ slash # rev d) = slash # rev d"
    using assms(1) by (induction name rule: rev_induct) auto
  then have 1: "rev (dropWhile (\<lambda>c. c \<noteq> slash) (rev (d @ slash # name))) = d @ [slash]"
    by simp
  from assms(2,3) obtain x xs where r: "rev d = x # xs" and x: "x \<noteq> slash"
    by (cases d rule: rev_cases) auto
  then have "dropWhile (\<lambda>c. c = slash) (slash # rev d) = rev d" by simp
  then have 2: "rev (dropWhile (\<lambda>c. c = slash) (rev (d @ [slash]))) = d" by simp
  have 3: "\<not> list_all (\<lambda>c. c = slash) (d @ [slash])"
    using assms(2,3) last_in_set [of d] by (auto simp: list_all_iff)
  have 4: "d @ [slash] \<noteq> []" by simp
  show ?thesis
    unfolding dirname_def Let_def 1 by (simp only: 2 3 4 simp_thms if_True)
qed

lemma encode_octets_surrogate: "0xDC80 \<in> set t \<Longrightarrow> encode_octets t = None"
  by (induction t) (auto simp: encode_code_point_def split: option.splits)

lemma utf8_encode_surrogate: "0xDC80 \<in> set t \<Longrightarrow> utf8_encode t = None"
  by (simp add: utf8_encode_def encode_octets_surrogate)

lemma serve_unencodable:
  "open_rb e p = Some f \<Longrightarrow> guess_type e p = str ''text/html''
     \<Longrightarrow> utf8_decode f = Some content
     \<Longrightarrow> utf8_encode (handle_includes e content (dirname p)) = None
     \<Longrightarrow> serve e p h = (Raise UnicodeEncodeError, h)"
  by (simp add: serve_def Let_def)

section \<open>More runs on the small site\<close>

lemma ok_headers_request:
  "ok_headers c n (request p) =
     \<lparr>self_path = str p,
      sent = [SendResponse 200, SendHeader (str ''Content-type'') c,
              SendHeader (str ''Content-Length'') (str_nat n), EndHeaders]\<rparr>"
  by (simp add: ok_headers_def send_response_def send_header_def end_headers_def request_def)

lemma send_error_request:
  "send_error c m (request p) = \<lparr>self_path = str p, sent = [SendError c m]\<rparr>"
  by (simp add: send_error_def request_def)

lemma demo_targets:
  "translate_path demo_env (str ''/x.html?a=1'') = str ''/srv/x.html''"
  "translate_path demo_env (str ''/data.json?x=.html'') = str ''/srv/data.json''"
  "translate_path raw_env (str ''/x.html'') = str ''/raw/x.html''"
  "translate_path odd_env (str ''/x.html'') = odd_dir @ str ''/x.html''"
  "translate_path odd_env (str ''/index.html'') = odd_dir @ str ''/index.html''"
  by (simp_all add: demo_env_def raw_env_def odd_env_def site_def demo_translate_def str_def)

lemma demo_absent:
  "\<not> exists demo_env (str ''/srv/x.html'')"
  "\<not> exists demo_env (str ''/srv/data.json'')"
  "\<not> exists raw_env (str ''/raw/x.html'')"
  "\<not> exists odd_env (odd_dir @ str ''/x.html'')"
  "\<not> exists odd_env (odd_dir @ str ''/missing.html'')"
  "\<not> exists demo_env (str ''/srv/old'' @ [slash] @ str ''/srv/nav.html'')"
  "\<not> exists demo_env (str ''/srv/old/srv/nav.html'')"
  by (simp_all add: exists_def demo_env_def raw_env_def odd_env_def site_def demo_stat_def
      odd_dir_def str_def slash_def)

lemma demo_suffixes:
  "endswith (str ''/x.html'') (str ''.html'')"
  "\<not> endswith (str ''/x.html?a=1'') (str ''.html'')"
  "\<not> endswith (str ''/data.json'') (str ''.html'')"
  "endswith (str ''/data.json?x=.html'') (str ''.html'')"
  "endswith (str ''/index.html'') (str ''.html'')"
  by (simp_all add: endswith_def str_def)

lemma other_fallbacks:
  "path_join (getcwd raw_env) (str ''index.html'') = str ''/raw/index.html''"
  "path_join (getcwd odd_env) (str ''index.html'') = odd_dir @ str ''/index.html''"
  by (simp_all add: path_join_def raw_env_def odd_env_def site_def odd_dir_def str_def slash_def)

lemma other_fallback_files:
  "exists raw_env (str ''/raw/index.html'')" "isfile raw_env (str ''/raw/index.html'')"
  "open_rb raw_env (str ''/raw/index.html'') = Some [0xFF]"
  "guess_type raw_env (str ''/raw/index.html'') = str ''text/html''"
  "exists odd_env (odd_dir @ str ''/index.html'')" "isfile odd_env (odd_dir @ str ''/index.html'')"
  "open_rb odd_env (odd_dir @ str ''/index.html'')
     = Some (ascii (directive_text [32] [32] (str ''missing.html'') [32]))"
  "guess_type odd_env (odd_dir @ str ''/index.html'') = str ''text/html''"
  by (simp_all add: exists_def isfile_def raw_env_def odd_env_def site_def demo_stat_def
      demo_open_rb_def demo_guess_type_def endswith_def odd_dir_def str_def)

lemma missing_parts: "pattern_parts [32] [32] (str ''missing.html'') [32]"
  by (simp add: pattern_parts_def is_space_def not_dquote_def dquote_def str_def)

lemma missing_ascii: "list_all (\<lambda>c. c < 128) (directive_text [32] [32] (str ''missing.html'') [32])"
  by (simp add: directive_text_def str_def dquote_def)

lemma odd_dirname: "dirname (odd_dir @ str ''/index.html'') = odd_dir"
proof -
  have "odd_dir @ str ''/index.html'' = odd_dir @ slash # str ''index.html''"
    by (simp add: str_def slash_def)
  moreover have "dirname (odd_dir @ slash # str ''index.html'') = odd_dir"
    by (rule dirname_split) (simp_all add: odd_dir_def str_def slash_def)
  ultimately show ?thesis by simp
qed

lemma odd_expanded:
  "handle_includes odd_env (directive_text [32] [32] (str ''missing.html'') [32]) odd_dir
     = str ''<!-- File not found: '' @ odd_dir @ str ''/missing.html -->''"
proof -
  have j: "path_join odd_dir (unquote odd_env (str ''missing.html'')) = odd_dir @ str ''/missing.html''"
    by (simp add: path_join_def odd_env_def site_def odd_dir_def str_def slash_def)
  have "replace_include odd_env odd_dir (str ''missing.html'')
      = str ''<!-- File not found: '' @ odd_dir @ str ''/missing.html'' @ str '' -->''"
    by (simp add: replace_include_def Let_def j demo_absent)
  then show ?thesis
    using handle_includes_directive [OF missing_parts, of odd_env "[]" odd_dir]
    by (simp add: handle_includes_Nil str_def)
qed

lemma odd_index_served:
  "serve odd_env (odd_dir @ str ''/index.html'') h = (Raise UnicodeEncodeError, h)"
proof -
  have "0xDC80 \<in> set (str ''<!-- File not found: '' @ odd_dir @ str ''/missing.html -->'')"
    by (simp add: odd_dir_def)
  then have "utf8_encode (handle_includes odd_env
      (directive_text [32] [32] (str ''missing.html'') [32])
      (dirname (odd_dir @ str ''/index.html''))) = None"
    by (simp only: odd_dirname odd_expanded utf8_encode_surrogate)
  from serve_unencodable [OF other_fallback_files(7) other_fallback_files(8)
      utf8_decode_ascii [OF missing_ascii] this]
  show ?thesis .
qed

lemma raw_index_served:
  "serve raw_env (str ''/raw/index.html'') h = (Raise UnicodeDecodeError, h)"
  by (rule serve_undecodable [OF other_fallback_files(3) other_fallback_files(4) demo_bad(3)])

lemma demo_plain: "plain_target (self_path (request ''/x.html''))"
  by (simp add: plain_target_def request_def str_def)

lemma demo_index_opened:
  "open_rb demo_env (str ''/srv/index.html'')
     = Some (ascii (directive_text [32] [32] (str ''nav.html'') [32]))"
  by (simp add: demo_env_def site_def demo_open_rb_def)

lemma demo_index_isfile: "isfile demo_env (str ''/srv/index.html'')"
  by (simp add: isfile_def demo_env_def site_def demo_stat_def odd_dir_def str_def)

lemma nav_length: "length (ascii (str ''<nav>Home</nav>'')) = 15"
  by (simp add: ascii_def str_def)

lemma demo_failing_parts:
  "pattern_parts [32] [32] (str ''missing.html'') [32]"
  "pattern_parts [32] [32] (str ''docs'') [32]"
  "pattern_parts [32] [32] (str ''locked.html'') [32]"
  by (simp_all add: pattern_parts_def is_space_def not_dquote_def dquote_def str_def)

lemma demo_failing_paths:
  "str ''/srv/missing.html'' = path_join (str ''/srv'') (unquote demo_env (str ''missing.html''))"
  "str ''/srv/docs'' = path_join (str ''/srv'') (unquote demo_env (str ''docs''))"
  "str ''/srv/locked.html'' = path_join (str ''/srv'') (unquote demo_env (str ''locked.html''))"
  by (simp_all add: path_join_def demo_env_def site_def str_def slash_def)

lemma demo_failing_files:
  "\<not> exists demo_env (str ''/srv/missing.html'')"
  "exists demo_env (str ''/srv/docs'')" "\<not> isfile demo_env (str ''/srv/docs'')"
  "exists demo_env (str ''/srv/locked.html'')" "isfile demo_env (str ''/srv/locked.html'')"
  "read_text demo_env (str ''/srv/locked.html'')
     = Inl (str ''[Errno 13] Permission denied: '' @ quoted (str ''/srv/locked.html''))"
  by (simp_all add: exists_def isfile_def demo_env_def site_def demo_stat_def demo_read_text_def
      odd_dir_def str_def)

lemma odd_resolution:
  "resolve odd_env (str ''/index.html'') = Found (odd_dir @ str ''/index.html'')"
proof -
  have "\<not> isdir odd_env (odd_dir @ str ''/index.html'')"
    using other_fallback_files(6) by (simp add: isdir_def isfile_def)
  then show ?thesis
    by (simp add: resolve_def Let_def demo_targets other_fallback_files)
qed






section \<open>The fallback to the root index\<close>

text \<open>
  Claim C1, as amended. For a request whose target is a plain path (no query string, no
  fragment) that ends in \<^verbatim>\<open>.html\<close> and whose translated path does not exist: if \<^verbatim>\<open>index.html\<close>
  exists in the working directory it is the resolved file, and the answer is
  \<^item> the 404 "File not found" when it cannot be opened;
  \<^item> status 200 with the bytes of the file when its type is not \<^verbatim>\<open>text/html\<close>;
  \<^item> for \<^verbatim>\<open>text/html\<close>, status 200 with the UTF-8 encoding of the expansion of its decoded
    content, with the directory of the file as base directory, and the uncaught
    \<open>UnicodeDecodeError\<close> or \<open>UnicodeEncodeError\<close> when the file does not decode or the
    expansion does not encode.
  If \<^verbatim>\<open>index.html\<close> does not exist there, the answer is the 404 "File not found".
\<close>

theorem spa_fallback:
  assumes "plain_target (self_path h)"
    and "endswith (self_path h) (str ''.html'')"
    and "\<not> exists e (translate_path e (self_path h))"
    and "spa = path_join (getcwd e) (str ''index.html'')"
  shows "resolve e (self_path h) = (if exists e spa then Found spa else NotFound)
    \<and> send_head e h =
        (if \<not> exists e spa
         then (ReturnNone, h\<lparr>sent := sent h @ [SendError 404 (str ''File not found'')]\<rparr>)
         else case open_rb e spa of
                None \<Rightarrow> (ReturnNone, h\<lparr>sent := sent h @ [SendError 404 (str ''File not found'')]\<rparr>)
              | Some f \<Rightarrow>
                  if guess_type e spa = str ''text/html'' then
                    (case utf8_decode f of
                       None \<Rightarrow> (Raise UnicodeDecodeError, h)
                     | Some content \<Rightarrow>
                         (case utf8_encode (handle_includes e content (dirname spa)) of
                            None \<Rightarrow> (Raise UnicodeEncodeError, h)
                          | Some body \<Rightarrow>
                              (ReturnFile body,
                               h\<lparr>sent := sent h @
                                 [SendResponse 200,
                                  SendHeader (str ''Content-type'') (str ''text/html''),
                                  SendHeader (str ''Content-Length'') (str_nat (length body)),
                                  EndHeaders]\<rparr>)))
                  else (ReturnFile f,
                        h\<lparr>sent := sent h @
                          [SendResponse 200,
                           SendHeader (str ''Content-type'') (guess_type e spa),
                           SendHeader (str ''Content-Length'') (str_nat (length f)),
                           EndHeaders]\<rparr>))"
proof -
  have ok: "\<And>c n. ok_headers c n h = h\<lparr>sent := sent h @
      [SendResponse 200, SendHeader (str ''Content-type'') c,
       SendHeader (str ''Content-Length'') (str_nat n), EndHeaders]\<rparr>"
    by (simp add: ok_headers_def send_response_def send_header_def end_headers_def)
  from assms(2,3) have r: "resolve e (self_path h) = (if exists e spa then Found spa else NotFound)"
    by (simp add: resolve_missing assms(4))
  then have "send_head e h =
      (if exists e spa then serve e spa h
       else (ReturnNone, send_error 404 (str ''File not found'') h))"
    by (simp add: send_head_def)
  then show ?thesis
    using r by (simp add: serve_def Let_def ok send_error_def split: option.splits)
qed

theorem spa_fallback_witness:
  "send_head demo_env (request ''/x.html'') =
     (ReturnFile (ascii (str ''<nav>Home</nav>'')),
      \<lparr>self_path = str ''/x.html'',
       sent = [SendResponse 200, SendHeader (str ''Content-type'') (str ''text/html''),
               SendHeader (str ''Content-Length'') (str ''15''), EndHeaders]\<rparr>)"
proof -
  note t = spa_fallback [OF demo_plain demo_missing_page(1) demo_missing_page(2)
      demo_fallbacks(1) [symmetric]]
  then have "send_head demo_env (request ''/x.html'') =
      (ReturnFile (ascii (str ''<nav>Home</nav>'')),
       (request ''/x.html'')\<lparr>sent := sent (request ''/x.html'') @
          [SendResponse 200, SendHeader (str ''Content-type'') (str ''text/html''),
           SendHeader (str ''Content-Length'') (str_nat 15), EndHeaders]\<rparr>)"
    by (simp add: demo_fallback_exists demo_index_opened demo_html_type
        utf8_decode_ascii [OF demo_directive_ascii] demo_dirname demo_index_expanded
        utf8_encode_ascii [OF demo_nav_ascii] nav_length)
  then show ?thesis by (simp add: request_def str_nat_15)
qed

text \<open>
  The claim as stated promises status 200 whenever the root \<^verbatim>\<open>index.html\<close> exists and the
  requested \<^verbatim>\<open>.html\<close> path does not. Four requests for the missing \<^verbatim>\<open>/x.html\<close> show otherwise:
  in \<^verbatim>\<open>/vault\<close> the index cannot be opened and the answer is the 404 of line 44; in \<^verbatim>\<open>/raw\<close>
  it is not UTF-8 and line 49 raises; in the directory with the undecodable name the
  comment for a missing include holds a lone surrogate and line 52 raises; and in \<^verbatim>\<open>/srv\<close>
  the target \<^verbatim>\<open>/x.html?a=1\<close>, whose path is \<^verbatim>\<open>/x.html\<close>, fails the suffix test of line 30, which
  reads the target with its query string, and is handed to \<open>super().send_head()\<close>.
\<close>

theorem spa_fallback_fails:
  "endswith (str ''/x.html'') (str ''.html'')
   \<and> \<not> exists vault_env (translate_path vault_env (str ''/x.html''))
   \<and> isfile vault_env (path_join (getcwd vault_env) (str ''index.html''))
   \<and> send_head vault_env (request ''/x.html'') =
       (ReturnNone, \<lparr>self_path = str ''/x.html'', sent = [SendError 404 (str ''File not found'')]\<rparr>)
   \<and> \<not> exists raw_env (translate_path raw_env (str ''/x.html''))
   \<and> isfile raw_env (path_join (getcwd raw_env) (str ''index.html''))
   \<and> send_head raw_env (request ''/x.html'') =
       (Raise UnicodeDecodeError, \<lparr>self_path = str ''/x.html'', sent = []\<rparr>)
   \<and> \<not> exists odd_env (translate_path odd_env (str ''/x.html''))
   \<and> isfile odd_env (path_join (getcwd odd_env) (str ''index.html''))
   \<and> send_head odd_env (request ''/x.html'') =
       (Raise UnicodeEncodeError, \<lparr>self_path = str ''/x.html'', sent = []\<rparr>)
   \<and> translate_path demo_env (str ''/x.html?a=1'') = str ''/srv/x.html''
   \<and> \<not> exists demo_env (str ''/srv/x.html'')
   \<and> isfile demo_env (path_join (getcwd demo_env) (str ''index.html''))
   \<and> send_head demo_env (request ''/x.html?a=1'') =
       (SuperSendHead, \<lparr>self_path = str ''/x.html?a=1'', sent = []\<rparr>)"
proof -
  have v: "\<not> exists vault_env (translate_path vault_env (str ''/x.html''))"
    using demo_missing_page(3) by (simp add: request_path)
  have 1: "send_head vault_env (request ''/x.html'') =
      (ReturnNone, \<lparr>self_path = str ''/x.html'', sent = [SendError 404 (str ''File not found'')]\<rparr>)"
    using v
    by (simp add: send_head_def request_path resolve_missing demo_suffixes demo_fallbacks
        demo_fallback_exists serve_unopened send_error_request)
  have r: "\<not> exists raw_env (translate_path raw_env (str ''/x.html''))"
    by (simp add: demo_targets demo_absent)
  have 2: "send_head raw_env (request ''/x.html'') =
      (Raise UnicodeDecodeError, \<lparr>self_path = str ''/x.html'', sent = []\<rparr>)"
    using r
    by (simp add: send_head_def request_path resolve_missing demo_suffixes other_fallbacks
        other_fallback_files raw_index_served) (simp add: request_def)
  have o: "\<not> exists odd_env (translate_path odd_env (str ''/x.html''))"
    by (simp add: demo_targets demo_absent)
  have 3: "send_head odd_env (request ''/x.html'') =
      (Raise UnicodeEncodeError, \<lparr>self_path = str ''/x.html'', sent = []\<rparr>)"
    using o
    by (simp add: send_head_def request_path resolve_missing demo_suffixes other_fallbacks
        other_fallback_files odd_index_served) (simp add: request_def)
  have q: "\<not> exists demo_env (translate_path demo_env (str ''/x.html?a=1''))"
    by (simp add: demo_targets demo_absent)
  have 4: "send_head demo_env (request ''/x.html?a=1'') =
      (SuperSendHead, \<lparr>self_path = str ''/x.html?a=1'', sent = []\<rparr>)"
    using q
    by (simp add: send_head_def request_path resolve_missing demo_suffixes) (simp add: request_def)
  have f: "isfile vault_env (path_join (getcwd vault_env) (str ''index.html''))"
    "isfile raw_env (path_join (getcwd raw_env) (str ''index.html''))"
    "isfile odd_env (path_join (getcwd odd_env) (str ''index.html''))"
    "isfile demo_env (path_join (getcwd demo_env) (str ''index.html''))"
    by (simp_all only: demo_fallbacks other_fallbacks demo_fallback_exists other_fallback_files
        demo_index_isfile)
  from v r o 1 2 3 4 f demo_suffixes(1) demo_targets(1) demo_absent(1) show ?thesis
    by simp
qed

lemma missing_without_suffix_defers:
  assumes "\<not> endswith (self_path h) (str ''.html'')"
    and "\<not> exists e (translate_path e (self_path h))"
  shows "resolve e (self_path h) = Default \<and> send_head e h = (SuperSendHead, h)"
  using assms by (simp add: resolve_missing send_head_def)

text \<open>
  Claim C5. A request path that does not end in \<^verbatim>\<open>.html\<close> and names no existing file is to
  be handed to the default not-found handling, never answered with the fallback. Line 30
  tests the suffix on \<open>self.path\<close>, which still carries the query string, while the file is
  looked up under the translated path, which does not: the target \<^verbatim>\<open>/data.json?x=.html\<close> has
  the path \<^verbatim>\<open>/data.json\<close>, no such file exists, and \<open>send_head\<close> answers 200 with the expanded
  root \<^verbatim>\<open>index.html\<close>.
\<close>

theorem query_suffix_fallback:
  "\<not> endswith (str ''/data.json'') (str ''.html'')
   \<and> translate_path demo_env (self_path (request ''/data.json?x=.html'')) = str ''/srv/data.json''
   \<and> \<not> exists demo_env (str ''/srv/data.json'')
   \<and> send_head demo_env (request ''/data.json?x=.html'') =
       (ReturnFile (ascii (str ''<nav>Home</nav>'')),
        \<lparr>self_path = str ''/data.json?x=.html'',
         sent = [SendResponse 200, SendHeader (str ''Content-type'') (str ''text/html''),
                 SendHeader (str ''Content-Length'') (str ''15''), EndHeaders]\<rparr>)"
proof -
  have "\<not> exists demo_env (translate_path demo_env (str ''/data.json?x=.html''))"
    by (simp add: demo_targets demo_absent)
  then have "send_head demo_env (request ''/data.json?x=.html'') =
      (ReturnFile (ascii (str ''<nav>Home</nav>'')),
       ok_headers (str ''text/html'') 15 (request ''/data.json?x=.html''))"
    by (simp add: send_head_def request_path resolve_missing demo_suffixes demo_fallbacks
        demo_fallback_exists demo_index_served)
  then show ?thesis
    by (simp add: ok_headers_request str_nat_15 request_path demo_targets demo_absent
        demo_suffixes)
qed

section \<open>Failing includes\<close>

text \<open>
  Claim C3, as amended. The expander itself never fails. For every include directive the
  pass finds, wherever it stands in the document, with candidate path \<open>p\<close>: when \<open>p\<close> does
  not exist or is not a regular file the directive is replaced by the comment
  \<^verbatim>\<open><!-- File not found: p -->\<close>; when reading the file raises an exception with text \<open>msg\<close> it
  is replaced by \<^verbatim>\<open><!-- Error including p: msg -->\<close>; the text before the directive and the
  text behind it are expanded as they would be on their own. Every failure mode thus
  yields an inline comment in the text the expander returns.
\<close>

theorem include_failures_become_comments:
  assumes "directive_of doc before v after" and "p = path_join base_dir (unquote e v)"
  shows "handle_includes e doc base_dir =
           handle_includes e before base_dir
           @ (if \<not> (exists e p \<and> isfile e p)
              then str ''<!-- File not found: '' @ p @ str '' -->''
              else case read_text e p of
                     Inl msg \<Rightarrow> str ''<!-- Error including '' @ p @ str '': '' @ msg @ str '' -->''
                   | Inr content \<Rightarrow> content)
           @ handle_includes e after base_dir"
  unfolding handle_includes_def assms(2) re_sub_directive_of [OF assms(1)]
  by (simp add: replace_include_def Let_def split: sum.splits)

theorem include_failures_become_comments_witness:
  "handle_includes demo_env
     (str ''<p>'' @ directive_text [32] [32] (str ''missing.html'') [32] @ str ''</p>'')
     (str ''/srv'')
     = str ''<p>'' @ str ''<!-- File not found: /srv/missing.html -->'' @ str ''</p>''
   \<and> handle_includes demo_env
     (str ''<p>'' @ directive_text [32] [32] (str ''docs'') [32] @ str ''</p>'') (str ''/srv'')
     = str ''<p>'' @ str ''<!-- File not found: /srv/docs -->'' @ str ''</p>''
   \<and> handle_includes demo_env
     (str ''<p>'' @ directive_text [32] [32] (str ''locked.html'') [32] @ str ''</p>'')
     (str ''/srv'')
     = str ''<p>'' @ str ''<!-- Error including /srv/locked.html: [Errno 13] Permission denied: ''
       @ quoted (str ''/srv/locked.html'') @ str '' -->'' @ str ''</p>''"
proof -
  show ?thesis
    using include_failures_become_comments
        [OF directive_of_paragraph [OF demo_failing_parts(1)] demo_failing_paths(1)]
      include_failures_become_comments
        [OF directive_of_paragraph [OF demo_failing_parts(2)] demo_failing_paths(2)]
      include_failures_become_comments
        [OF directive_of_paragraph [OF demo_failing_parts(3)] demo_failing_paths(3)]
    by (simp only: demo_failing_files demo_paragraph simp_thms if_True if_False sum.case)
      (simp add: str_def)
qed

text \<open>
  The claim as stated says that the request is never aborted and that the comment is in
  the output. In the directory with the undecodable name the served \<^verbatim>\<open>index.html\<close> includes
  a missing file; the expander returns the comment, with the lone surrogate of the path in
  it, and \<open>encode\<close> in line 52 raises: the request ends without any output.
\<close>

theorem include_comment_unencodable:
  "resolve odd_env (self_path (request ''/index.html'')) = Found (odd_dir @ str ''/index.html'')
   \<and> open_rb odd_env (odd_dir @ str ''/index.html'')
       = Some (ascii (directive_text [32] [32] (str ''missing.html'') [32]))
   \<and> handle_includes odd_env (directive_text [32] [32] (str ''missing.html'') [32]) odd_dir
       = str ''<!-- File not found: '' @ odd_dir @ str ''/missing.html -->''
   \<and> send_head odd_env (request ''/index.html'') =
       (Raise UnicodeEncodeError, \<lparr>self_path = str ''/index.html'', sent = []\<rparr>)"
proof -
  have r: "resolve odd_env (self_path (request ''/index.html'')) = Found (odd_dir @ str ''/index.html'')"
    by (simp add: request_path odd_resolution)
  have "send_head odd_env (request ''/index.html'') = (Raise UnicodeEncodeError, request ''/index.html'')"
    by (simp add: send_head_found [OF r] odd_index_served)
  then have "send_head odd_env (request ''/index.html'') =
      (Raise UnicodeEncodeError, \<lparr>self_path = str ''/index.html'', sent = []\<rparr>)"
    by (simp add: request_def)
  with r other_fallback_files(7) odd_expanded show ?thesis by simp
qed

section \<open>The candidate path of an include\<close>




end
